theory Spec2Isabelle
  imports Complex_Main "HOL-Library.Char_ord" "HOL-Library.List_Lexorder" "HOL-Library.Log_Nat"
begin

section \<open>Python values and exceptions\<close>

text \<open>
  A wall-clock time without zone, as a naive pandas \<^verbatim>\<open>Timestamp\<close> or a
  \<^verbatim>\<open>datetime\<close> holds it.
\<close>

record timestamp =
  year :: nat
  month :: nat
  day :: nat
  hour :: nat
  minute :: nat
  second :: nat

text \<open>A time zone is its offset from UTC in minutes.\<close>

datatype tzinfo = FixedOffset int

text \<open>
  The script \<^verbatim>\<open>repo-details-group.py\<close> works on the decoded JSON body of an Artifactory
  AQL response.  A decoded JSON value is a Python object: \<^verbatim>\<open>None\<close>, a bool, an int, a
  float, a str, a list or a dict with string keys.  A float is carried by its exact
  (rational) value.  A dict is an association list with pairwise distinct keys, in
  insertion order.  The one other kind of object that the cells of a table hold is a
  pandas timestamp (\<^verbatim>\<open>NaT\<close> is \<open>PTimestamp None\<close>).
\<close>

datatype pyobj =
    PNone
  | PBool bool
  | PInt int
  | PFloat rat
  | PStr string
  | PList "pyobj list"
  | PDict "(string \<times> pyobj) list"
  | PTimestamp "timestamp option"

text \<open>The exceptions the script can meet; an uncaught one ends the run.\<close>

datatype error =
    KeyError
  | IndexError
  | TypeError
  | AttributeError
  | ValueError
  | OverflowError
  | ZeroDivisionError

text \<open>Sequencing of fallible steps: the first exception raised wins.\<close>

definition sbind :: "error + 'a \<Rightarrow> ('a \<Rightarrow> error + 'b) \<Rightarrow> error + 'b" where
  "sbind m f = (case m of Inl e \<Rightarrow> Inl e | Inr v \<Rightarrow> f v)"

text \<open>
  \<^verbatim>\<open>x.get(key, default)\<close>: only a dict has the method \<^verbatim>\<open>get\<close>; on every other JSON
  value the attribute lookup raises \<^verbatim>\<open>AttributeError\<close>.
\<close>

fun py_get :: "pyobj \<Rightarrow> string \<Rightarrow> pyobj \<Rightarrow> error + pyobj" where
  "py_get (PDict d) k dflt = Inr (case map_of d k of None \<Rightarrow> dflt | Some v \<Rightarrow> v)"
| "py_get _ k dflt = Inl AttributeError"

text \<open>
  \<^verbatim>\<open>x[0]\<close>: the first element of a list or the first character of a str
  (\<^verbatim>\<open>IndexError\<close> when empty); a dict with string keys has no key \<^verbatim>\<open>0\<close>
  (\<^verbatim>\<open>KeyError\<close>); \<^verbatim>\<open>None\<close>, bools and numbers are not subscriptable
  (\<^verbatim>\<open>TypeError\<close>).
\<close>

fun py_item0 :: "pyobj \<Rightarrow> error + pyobj" where
  "py_item0 (PList []) = Inl IndexError"
| "py_item0 (PList (x # xs)) = Inr x"
| "py_item0 (PStr []) = Inl IndexError"
| "py_item0 (PStr (c # cs)) = Inr (PStr [c])"
| "py_item0 (PDict d) = Inl KeyError"
| "py_item0 _ = Inl TypeError"

text \<open>Truthiness, as \<^verbatim>\<open>if x:\<close> and \<^verbatim>\<open>not x\<close> test it.\<close>

fun truthy :: "pyobj \<Rightarrow> bool" where
  "truthy PNone = False"
| "truthy (PBool b) = b"
| "truthy (PInt n) = (n \<noteq> 0)"
| "truthy (PFloat x) = (x \<noteq> 0)"
| "truthy (PStr s) = (s \<noteq> [])"
| "truthy (PList xs) = (xs \<noteq> [])"
| "truthy (PDict d) = (d \<noteq> [])"
| "truthy (PTimestamp t) = True"

text \<open>
  \<^verbatim>\<open>for item in x\<close>: a list yields its elements, a str its characters, a dict its keys;
  anything else is not iterable.
\<close>

fun py_iter :: "pyobj \<Rightarrow> error + pyobj list" where
  "py_iter (PList xs) = Inr xs"
| "py_iter (PStr s) = Inr (map (\<lambda>c. PStr [c]) s)"
| "py_iter (PDict d) = Inr (map (\<lambda>kv. PStr (fst kv)) d)"
| "py_iter _ = Inl TypeError"

section \<open>Result normalisation: \<^verbatim>\<open>process_results\<close>\<close>

text \<open>
  A dict literal evaluates its entries in order; the first entry whose expression raises
  ends the evaluation with that exception.
\<close>

fun dict_literal :: "(string \<times> (error + pyobj)) list \<Rightarrow> error + (string \<times> pyobj) list" where
  "dict_literal [] = Inr []"
| "dict_literal ((k, m) # rest) =
     sbind m (\<lambda>v. sbind (dict_literal rest) (\<lambda>kvs. Inr ((k, v) # kvs)))"

text \<open>
  \<^verbatim>\<open>item.get("stats", [{}])[0].get(field, default)\<close> (lines 88 to 90): the default list
  \<^verbatim>\<open>[{}]\<close> is taken only when the key \<^verbatim>\<open>"stats"\<close> is absent from the item.
\<close>

definition stat_field :: "pyobj \<Rightarrow> string \<Rightarrow> pyobj \<Rightarrow> error + pyobj" where
  "stat_field item field dflt =
     sbind (py_get item ''stats'' (PList [PDict []]))
       (\<lambda>stats. sbind (py_item0 stats) (\<lambda>entry. py_get entry field dflt))"

text \<open>The row built for one item (lines 77 to 91).\<close>

definition process_item :: "pyobj \<Rightarrow> error + (string \<times> pyobj) list" where
  "process_item item = dict_literal
     [(''repo'', py_get item ''repo'' PNone),
      (''path'', py_get item ''path'' PNone),
      (''name'', py_get item ''name'' PNone),
      (''type'', py_get item ''type'' PNone),
      (''size'', py_get item ''size'' PNone),
      (''created'', py_get item ''created'' PNone),
      (''created_by'', py_get item ''created_by'' PNone),
      (''modified'', py_get item ''modified'' PNone),
      (''modified_by'', py_get item ''modified_by'' PNone),
      (''updated'', py_get item ''updated'' PNone),
      (''downloads'', stat_field item ''downloads'' (PInt 0)),
      (''downloaded_by'', stat_field item ''downloaded_by'' (PStr ''N/A'')),
      (''last_downloaded'', stat_field item ''downloaded'' (PStr ''N/A''))]"

text \<open>A function applied to the elements of a list in order, up to the first exception.\<close>

fun traverse :: "('a \<Rightarrow> error + 'b) \<Rightarrow> 'a list \<Rightarrow> error + 'b list" where
  "traverse f [] = Inr []"
| "traverse f (x # xs) = sbind (f x) (\<lambda>y. sbind (traverse f xs) (\<lambda>ys. Inr (y # ys)))"

text \<open>The list comprehension of lines 76 to 93.\<close>

definition processed_results :: "pyobj \<Rightarrow> error + (string \<times> pyobj) list list" where
  "processed_results result =
     sbind (py_get result ''results'' (PList []))
       (\<lambda>res. sbind (py_iter res) (traverse process_item))"

section \<open>Tables\<close>

text \<open>
  A pandas \<^verbatim>\<open>Series\<close> is either a column of Python objects and numbers (\<^verbatim>\<open>NaN\<close> is
  written \<^const>\<open>PNone\<close>), or a column of dtype \<^verbatim>\<open>datetime64\<close>: its time zone
  (\<^const>\<open>None\<close> when naive) and the local wall-clock time of every row, \<^const>\<open>None\<close>
  for \<^verbatim>\<open>NaT\<close>.  A \<^verbatim>\<open>DataFrame\<close> is the list of its named columns, in order.
\<close>

datatype series =
    Object "pyobj list"
  | Datetime "tzinfo option" "timestamp option list"

type_synonym dataframe = "(string \<times> series) list"

text \<open>The distinct elements of a list, in the order of their first occurrence.\<close>

text \<open>
  \<^verbatim>\<open>pd.DataFrame(rows)\<close> for a list of dicts: one column per key, in order of first
  appearance, a missing entry becoming \<^verbatim>\<open>NaN\<close>.  For the empty list the frame has no
  column at all.
\<close>

definition unique :: "'a list \<Rightarrow> 'a list" where
  "unique xs = rev (remdups (rev xs))"

definition DataFrame :: "(string \<times> pyobj) list list \<Rightarrow> dataframe" where
  "DataFrame rows =
     map (\<lambda>k. (k, Object (map (\<lambda>r. case map_of r k of None \<Rightarrow> PNone | Some v \<Rightarrow> v) rows)))
       (unique (concat (map (map fst) rows)))"

text \<open>\<^verbatim>\<open>df[k]\<close> raises \<^verbatim>\<open>KeyError\<close> for a column the frame does not have.\<close>

definition getcol :: "dataframe \<Rightarrow> string \<Rightarrow> error + series" where
  "getcol df k = (case map_of df k of None \<Rightarrow> Inl KeyError | Some s \<Rightarrow> Inr s)"

text \<open>\<^verbatim>\<open>df[k] = s\<close> replaces the column in place, or appends a new one.\<close>

definition setcol :: "dataframe \<Rightarrow> string \<Rightarrow> series \<Rightarrow> dataframe" where
  "setcol df k s =
     (if k \<in> fst ` set df then map (\<lambda>c. if fst c = k then (k, s) else c) df
      else df @ [(k, s)])"

text \<open>
  \<^verbatim>\<open>pd.to_datetime(s, errors='coerce')\<close>.  A column that already has a datetime dtype is
  returned as it is.  How pandas parses a column of objects (which strings it accepts,
  which zone the result carries, whether the result is a datetime column at all) is the
  library's business: the parser is the parameter \<open>parse\<close>.
\<close>

fun to_datetime :: "(pyobj list \<Rightarrow> error + series) \<Rightarrow> series \<Rightarrow> error + series" where
  "to_datetime parse (Datetime tz ts) = Inr (Datetime tz ts)"
| "to_datetime parse (Object vs) = parse vs"

text \<open>
  \<^verbatim>\<open>process_results\<close> (lines 72 to 104).  The second component is the list of lines
  printed: the warning of line 102 when the frame has no column \<^verbatim>\<open>created\<close>.
\<close>

definition process_results ::
    "(pyobj list \<Rightarrow> error + series) \<Rightarrow> pyobj \<Rightarrow> error + (dataframe \<times> string list)" where
  "process_results parse result =
     sbind (processed_results result) (\<lambda>rows.
       let df = DataFrame rows in
       if ''created'' \<in> fst ` set df then
         sbind (getcol df ''created'') (\<lambda>c.
           sbind (to_datetime parse c) (\<lambda>c'. Inr (setcol df ''created'' c', [])))
       else Inr (df, [''Warning: 'created' column is missing.'']))"

section \<open>Time zones: \<^verbatim>\<open>remove_timezone\<close>\<close>

text \<open>
  \<^verbatim>\<open>s.dt.tz\<close>: the accessor \<^verbatim>\<open>dt\<close> exists on datetime columns only.
\<close>

fun dt_tz :: "series \<Rightarrow> error + tzinfo option" where
  "dt_tz (Datetime tz ts) = Inr tz"
| "dt_tz (Object vs) = Inl AttributeError"

text \<open>
  \<^verbatim>\<open>s.dt.tz_localize(None)\<close> on a zone-aware column drops the zone and keeps the local
  wall-clock times.
\<close>

fun tz_localize_None :: "series \<Rightarrow> error + series" where
  "tz_localize_None (Datetime tz ts) = Inr (Datetime None ts)"
| "tz_localize_None (Object vs) = Inl AttributeError"

text \<open>Lines 117 to 118 (and 120 to 121) for one column.\<close>

definition strip_tz :: "dataframe \<Rightarrow> string \<Rightarrow> error + dataframe" where
  "strip_tz df k =
     sbind (getcol df k) (\<lambda>c. sbind (dt_tz c) (\<lambda>tz.
       if tz \<noteq> None then
         sbind (getcol df k) (\<lambda>c1. sbind (tz_localize_None c1) (\<lambda>c2. Inr (setcol df k c2)))
       else Inr df))"

text \<open>Lines 113 and 114 for one column.\<close>

definition parse_col ::
    "(pyobj list \<Rightarrow> error + series) \<Rightarrow> dataframe \<Rightarrow> string \<Rightarrow> error + dataframe" where
  "parse_col parse df k =
     sbind (getcol df k) (\<lambda>c. sbind (to_datetime parse c) (\<lambda>c'. Inr (setcol df k c')))"

definition remove_timezone ::
    "(pyobj list \<Rightarrow> error + series) \<Rightarrow> dataframe \<Rightarrow> error + dataframe" where
  "remove_timezone parse df =
     sbind (parse_col parse df ''created'') (\<lambda>df1.
     sbind (parse_col parse df1 ''modified'') (\<lambda>df2.
     sbind (strip_tz df2 ''created'') (\<lambda>df3.
     strip_tz df3 ''modified'')))"

section \<open>Configuration: \<^verbatim>\<open>get_configuration\<close>\<close>

text \<open>
  The command line as \<^verbatim>\<open>argparse\<close> hands it over: a flag that was not given is
  \<^const>\<open>None\<close>.  \<^verbatim>\<open>--repository-names\<close> has \<^verbatim>\<open>nargs='+'\<close>.  The process environment
  (after \<^verbatim>\<open>load_dotenv\<close>) is what \<^verbatim>\<open>os.getenv\<close> reads.
\<close>

record cli =
  cli_artifactory_url :: "string option"
  cli_username :: "string option"
  cli_password :: "string option"
  cli_repository_names :: "string list option"

type_synonym environ = "string \<Rightarrow> string option"

text \<open>\<^verbatim>\<open>s.split(',')\<close>.\<close>

fun split_comma :: "string \<Rightarrow> string list" where
  "split_comma [] = [[]]"
| "split_comma (c # cs) =
     (if c = CHR '','' then [] # split_comma cs
      else (case split_comma cs of [] \<Rightarrow> [[c]] | w # ws \<Rightarrow> (c # w) # ws))"

text \<open>
  The parsed arguments, lines 21 to 39: a flag given on the command line wins, otherwise
  the default read from the environment stands.
\<close>

record args =
  artifactory_url :: "string option"
  username :: "string option"
  password :: "string option"
  repository_names :: "string list"

definition parse_args :: "environ \<Rightarrow> cli \<Rightarrow> args" where
  "parse_args getenv c =
     \<lparr> artifactory_url =
         (case cli_artifactory_url c of None \<Rightarrow> getenv ''ARTIFACTORY_URL'' | Some v \<Rightarrow> Some v),
       username = (case cli_username c of None \<Rightarrow> getenv ''USERNAME'' | Some v \<Rightarrow> Some v),
       password = (case cli_password c of None \<Rightarrow> getenv ''PASSWORD'' | Some v \<Rightarrow> Some v),
       repository_names =
         (case cli_repository_names c of
            None \<Rightarrow> (case getenv ''REPOSITORY_NAMES'' of None \<Rightarrow> [] | Some s \<Rightarrow> split_comma s)
          | Some ns \<Rightarrow> ns) \<rparr>"

text \<open>\<^verbatim>\<open>not x\<close> for an optional string: true for \<^verbatim>\<open>None\<close> and for the empty string.\<close>

definition missing :: "string option \<Rightarrow> bool" where
  "missing x = (case x of None \<Rightarrow> True | Some s \<Rightarrow> s = [])"

text \<open>The check of lines 42 to 45.\<close>

definition get_configuration ::
    "environ \<Rightarrow> cli \<Rightarrow> error + (string \<times> string \<times> string \<times> string list)" where
  "get_configuration getenv c =
     (let a = parse_args getenv c in
      if missing (artifactory_url a) \<or> missing (username a) \<or> missing (password a)
         \<or> repository_names a = []
      then Inl ValueError
      else Inr (the (artifactory_url a), the (username a), the (password a),
                repository_names a))"

section \<open>Query builder and executor\<close>

definition dq :: char where
  "dq = CHR 0x22"

definition nl :: char where
  "nl = CHR 0x0A"

text \<open>The f-string of lines 64 to 68.\<close>

definition generate_aql_query :: "string \<Rightarrow> string" where
  "generate_aql_query repository_name =
     [nl] @ ''items.find({'' @ [nl] @
     ''    '' @ [dq] @ ''repo'' @ [dq] @ '': '' @ [dq] @ repository_name @ [dq] @ [nl] @
     ''}).include('' @
       [dq] @ ''name'' @ [dq] @ '', '' @ [dq] @ ''repo'' @ [dq] @ '', '' @
       [dq] @ ''path'' @ [dq] @ '', '' @ [dq] @ ''type'' @ [dq] @ '', '' @
       [dq] @ ''size'' @ [dq] @ '', '' @ [dq] @ ''created'' @ [dq] @ '', '' @
       [dq] @ ''created_by'' @ [dq] @ '', '' @ [dq] @ ''modified'' @ [dq] @ '', '' @
       [dq] @ ''modified_by'' @ [dq] @ '', '' @ [dq] @ ''updated'' @ [dq] @ '', '' @
       [dq] @ ''stat'' @ [dq] @ '')'' @ [nl]"

text \<open>
  The POST request of line 54 (the header \<^verbatim>\<open>Content-Type: text/plain\<close> and
  \<^verbatim>\<open>verify=False\<close> are the same for every request).
\<close>

record request =
  req_url :: string
  req_user :: string
  req_password :: string
  req_data :: string

text \<open>
  What the network gives back.  Either \<^verbatim>\<open>requests.post\<close> itself raises a
  \<^verbatim>\<open>RequestException\<close> (connection refused, time-out, ...) with some message, or there
  is a response: its status code, the message of the \<^verbatim>\<open>HTTPError\<close> that
  \<^verbatim>\<open>raise_for_status\<close> raises for it (read when the status is 4xx or 5xx only), and
  what \<^verbatim>\<open>response.json()\<close> yields: the decoded body, or the message of the
  \<^verbatim>\<open>JSONDecodeError\<close> (a \<^verbatim>\<open>RequestException\<close> too) when the body is not JSON.
\<close>

datatype http_outcome =
    Request_failed string
  | Response nat string "string + pyobj"

section \<open>Python floats\<close>

text \<open>
  A Python float is an IEEE 754 binary64 number, carried here by its exact rational
  value.  \<open>to_double\<close> rounds a rational to the nearest binary64 number, ties to the even
  significand: 53 significant bits, gradual underflow below \<open>2 ^ -1022\<close>.  A result
  beyond \<open>max_double\<close> is an overflow, which the caller decides.
\<close>

definition round_half_even :: "rat \<Rightarrow> int" where
  "round_half_even x =
     (let f = \<lfloor>x\<rfloor>; d = x - of_int f in
      if d < 1 / 2 then f else if d > 1 / 2 then f + 1 else if even f then f else f + 1)"

definition pow2 :: "int \<Rightarrow> rat" where
  "pow2 e = (if 0 \<le> e then 2 ^ nat e else 1 / 2 ^ nat (- e))"

text \<open>For \<open>a > 0\<close>, the integer \<open>e\<close> with \<open>2 ^ e \<le> a < 2 ^ (e + 1)\<close>.\<close>

definition ilog2 :: "rat \<Rightarrow> int" where
  "ilog2 a = (if 1 \<le> a then bitlen \<lfloor>a\<rfloor> - 1 else - bitlen (\<lceil>1 / a\<rceil> - 1))"

definition to_double :: "rat \<Rightarrow> rat" where
  "to_double x =
     (if x = 0 then 0
      else let ulp = pow2 (max (ilog2 \<bar>x\<bar> - 52) (- 1074))
           in of_int (round_half_even (x / ulp)) * ulp)"

definition max_double :: rat where
  "max_double = (2 ^ 53 - 1) * 2 ^ 971"

text \<open>
  \<^verbatim>\<open>a / b\<close> for two ints: the correctly rounded quotient, \<^verbatim>\<open>OverflowError\<close> when it is
  too large for a float.
\<close>

definition truediv :: "int \<Rightarrow> int \<Rightarrow> error + rat" where
  "truediv a b =
     (if b = 0 then Inl ZeroDivisionError
      else let q = to_double (of_int a / of_int b)
           in if \<bar>q\<bar> > max_double then Inl OverflowError else Inr q)"

text \<open>
  \<^verbatim>\<open>round(x, 2)\<close> for a float: the exact value of \<open>x\<close> is rounded to two decimals, a tie
  going to the even last digit, and the decimal is read back as the nearest float.
\<close>

definition py_round2 :: "rat \<Rightarrow> rat" where
  "py_round2 x = to_double (of_int (round_half_even (x * 100)) / 100)"

section \<open>Size conversion: \<^verbatim>\<open>bytes_to_gb\<close>\<close>

text \<open>Lines 108 to 109, for an int.\<close>

definition bytes_to_gb :: "int \<Rightarrow> error + rat" where
  "bytes_to_gb bytes_size = sbind (truediv bytes_size (1024 ^ 3)) (\<lambda>q. Inr (py_round2 q))"

text \<open>
  The same function on whatever a cell holds: a bool is an int, a float is divided as a
  float, anything else cannot be divided.
\<close>

fun bytes_to_gb_cell :: "pyobj \<Rightarrow> error + pyobj" where
  "bytes_to_gb_cell (PInt n) = sbind (bytes_to_gb n) (\<lambda>g. Inr (PFloat g))"
| "bytes_to_gb_cell (PBool b) = sbind (bytes_to_gb (if b then 1 else 0)) (\<lambda>g. Inr (PFloat g))"
| "bytes_to_gb_cell (PFloat x) = Inr (PFloat (py_round2 (to_double (x / 1024 ^ 3))))"
| "bytes_to_gb_cell _ = Inl TypeError"

section \<open>Formatting of times\<close>

definition digit_char :: "nat \<Rightarrow> char" where
  "digit_char d = ''0123456789'' ! (d mod 10)"

fun digits :: "nat \<Rightarrow> string" where
  "digits n = (if n < 10 then [digit_char n] else digits (n div 10) @ [digit_char (n mod 10)])"

declare digits.simps [simp del]

text \<open>A decimal padded with zeros on the left to at least \<open>w\<close> characters.\<close>

definition zpad :: "nat \<Rightarrow> nat \<Rightarrow> string" where
  "zpad w n = replicate (w - length (digits n)) (CHR ''0'') @ digits n"

text \<open>\<^verbatim>\<open>%b\<close>: the abbreviated month name (C locale) of the months 1 to 12.\<close>

definition month_abbr :: "nat \<Rightarrow> string" where
  "month_abbr m =
     [''Jan'', ''Feb'', ''Mar'', ''Apr'', ''May'', ''Jun'',
      ''Jul'', ''Aug'', ''Sep'', ''Oct'', ''Nov'', ''Dec''] ! ((m - 1) mod 12)"

text \<open>
  \<^verbatim>\<open>strftime('%Y%b%dT%H%MHZ')\<close>, line 154: \<^verbatim>\<open>%Y\<close> is the year in four digits (for the
  years 1000 to 9999, which are the ones a clock reads and a pandas timestamp holds),
  \<^verbatim>\<open>%d\<close>, \<^verbatim>\<open>%H\<close> and \<^verbatim>\<open>%M\<close> are two digits each.
\<close>

definition strftime_stamp :: "timestamp \<Rightarrow> string" where
  "strftime_stamp t =
     zpad 4 (year t) @ month_abbr (month t) @ zpad 2 (day t) @ ''T'' @
     zpad 2 (hour t) @ zpad 2 (minute t) @ ''HZ''"

text \<open>\<^verbatim>\<open>strftime('%b %Y')\<close>, line 144.\<close>

definition strftime_month_year :: "timestamp \<Rightarrow> string" where
  "strftime_month_year t = month_abbr (month t) @ '' '' @ zpad 4 (year t)"

text \<open>The file name of line 155.\<close>

definition filename :: "string \<Rightarrow> timestamp \<Rightarrow> string" where
  "filename repository_name now = repository_name @ ''-'' @ strftime_stamp now @ ''-stats.xlsx''"

section \<open>Report writer: \<^verbatim>\<open>write_to_excel\<close>\<close>

text \<open>The objects in the rows of a column.\<close>

fun cells :: "series \<Rightarrow> pyobj list" where
  "cells (Object vs) = vs"
| "cells (Datetime tz ts) = map PTimestamp ts"

text \<open>
  \<^verbatim>\<open>s.dt.year\<close>, \<^verbatim>\<open>s.dt.month\<close>, \<^verbatim>\<open>s.dt.strftime(...)\<close>: a field of every time of a
  datetime column, \<^verbatim>\<open>NaN\<close> at \<^verbatim>\<open>NaT\<close>.
\<close>

fun dt_field :: "(timestamp \<Rightarrow> pyobj) \<Rightarrow> series \<Rightarrow> error + series" where
  "dt_field f (Datetime tz ts) =
     Inr (Object (map (\<lambda>t. case t of None \<Rightarrow> PNone | Some t' \<Rightarrow> f t') ts))"
| "dt_field f (Object vs) = Inl AttributeError"

text \<open>
  pandas stores a column of numbers in which a value is missing or is a float with the
  dtype \<^verbatim>\<open>float64\<close>: the ints become floats and \<^verbatim>\<open>None\<close> becomes \<^verbatim>\<open>NaN\<close>.  Every
  other column keeps the Python objects.
\<close>

fun float64_cell :: "pyobj \<Rightarrow> bool" where
  "float64_cell PNone = True"
| "float64_cell (PInt n) = (- (2 ^ 63) \<le> n \<and> n < 2 ^ 63)"
| "float64_cell (PFloat x) = True"
| "float64_cell _ = False"

definition float64_column :: "pyobj list \<Rightarrow> bool" where
  "float64_column vs =
     (list_all float64_cell vs \<and> list_ex (\<lambda>v. v \<noteq> PNone) vs \<and>
      list_ex (\<lambda>v. case v of PInt n \<Rightarrow> False | _ \<Rightarrow> True) vs)"

text \<open>The value of a cell of a \<^verbatim>\<open>float64\<close> column, \<^const>\<open>None\<close> for \<^verbatim>\<open>NaN\<close>.\<close>

fun float64_value :: "pyobj \<Rightarrow> rat option" where
  "float64_value (PInt n) = Some (to_double (of_int n))"
| "float64_value (PFloat x) = Some x"
| "float64_value _ = None"

text \<open>
  \<^verbatim>\<open>df['size'].apply(bytes_to_gb)\<close>, line 130: the function is called on the value of
  every row in order.  \<^verbatim>\<open>round(nan / 2 ** 30, 2)\<close> is \<^verbatim>\<open>nan\<close>.
\<close>

definition apply_bytes_to_gb :: "series \<Rightarrow> error + series" where
  "apply_bytes_to_gb s =
     (let vs = cells s in
      if float64_column vs then
        Inr (Object (map (\<lambda>v. case float64_value v of None \<Rightarrow> PNone
                                | Some x \<Rightarrow> PFloat (py_round2 (to_double (x / 1024 ^ 3)))) vs))
      else sbind (traverse bytes_to_gb_cell vs) (\<lambda>gs. Inr (Object gs)))"

text \<open>
  \<^verbatim>\<open>pd.cut(x, bins, labels)\<close> with the default \<^verbatim>\<open>right=True\<close> and
  \<^verbatim>\<open>include_lowest=False\<close>: the value \<open>x\<close> gets the label of the interval \<open>(lo, hi]\<close>
  between two neighbouring bin edges that holds it, and no label when no interval does.
\<close>

datatype edge = Fin int | Infinity

fun above :: "edge \<Rightarrow> rat \<Rightarrow> bool" where
  "above (Fin b) x = (of_int b < x)"
| "above Infinity x = False"

fun upto_edge :: "rat \<Rightarrow> edge \<Rightarrow> bool" where
  "upto_edge x (Fin b) = (x \<le> of_int b)"
| "upto_edge x Infinity = True"

fun cut :: "edge list \<Rightarrow> string list \<Rightarrow> rat \<Rightarrow> string option" where
  "cut (lo # hi # bins) (l # labels) x =
     (if above lo x \<and> upto_edge x hi then Some l else cut (hi # bins) labels x)"
| "cut bins labels x = None"

text \<open>The bins and labels of lines 133 and 134.\<close>

definition download_bins :: "edge list" where
  "download_bins = [Fin 0, Fin 10, Fin 20, Fin 30, Fin 40, Fin 50, Infinity]"

definition download_labels :: "string list" where
  "download_labels = [''1-10'', ''11-20'', ''21-30'', ''31-40'', ''41-50'', ''50+'']"

definition download_range :: "rat \<Rightarrow> string option" where
  "download_range x = cut download_bins download_labels x"

text \<open>
  \<^verbatim>\<open>pd.cut\<close> on the column \<^verbatim>\<open>downloads\<close>: a column of numbers is binned row by row,
  \<^verbatim>\<open>NaN\<close> getting no label; a column that holds anything but numbers cannot be compared
  with the bin edges.
\<close>

fun number :: "pyobj \<Rightarrow> rat option" where
  "number (PInt n) = Some (of_int n)"
| "number (PFloat x) = Some x"
| "number _ = None"

definition numeric_column :: "pyobj list \<Rightarrow> bool" where
  "numeric_column vs =
     (vs = [] \<or> (list_all (\<lambda>v. v = PNone \<or> number v \<noteq> None) vs \<and> list_ex (\<lambda>v. v \<noteq> PNone) vs))"

definition download_ranges :: "series \<Rightarrow> error + string option list" where
  "download_ranges s =
     (let vs = cells s in
      if numeric_column vs then
        Inr (map (\<lambda>v. case number v of None \<Rightarrow> None | Some x \<Rightarrow> download_range x) vs)
      else Inl TypeError)"

text \<open>A missing value, which \<^verbatim>\<open>count\<close>, \<^verbatim>\<open>groupby\<close> and \<^verbatim>\<open>value_counts\<close> leave out.\<close>

fun isna :: "pyobj \<Rightarrow> bool" where
  "isna PNone = True"
| "isna (PTimestamp None) = True"
| "isna _ = False"

text \<open>
  \<^verbatim>\<open>df.groupby(download_ranges)['downloads'].count()\<close>, line 135: one row per label, in
  the order of the labels (a label that no row has is kept, with count 0), counting the
  rows of that label whose \<^verbatim>\<open>downloads\<close> is not missing.
\<close>

definition download_summary :: "string option list \<Rightarrow> pyobj list \<Rightarrow> (string \<times> nat) list" where
  "download_summary ranges downloads =
     map (\<lambda>l. (l, length (filter (\<lambda>(r, d). r = Some l \<and> \<not> isna d) (zip ranges downloads))))
       download_labels"

text \<open>
  \<^verbatim>\<open>groupby(key)\<close>: the groups are the distinct keys that are not missing, in ascending
  order; the rows of a group keep their order.
\<close>

definition group_keys :: "('k::linorder) option list \<Rightarrow> 'k list" where
  "group_keys ks = sort (remdups (concat (map (\<lambda>k. case k of None \<Rightarrow> [] | Some k' \<Rightarrow> [k']) ks)))"

definition group_rows :: "'k option list \<Rightarrow> 'v list \<Rightarrow> 'k \<Rightarrow> 'v list" where
  "group_rows ks vs k = map snd (filter (\<lambda>(k', v). k' = Some k) (zip ks vs))"

definition count_notna :: "pyobj list \<Rightarrow> nat" where
  "count_notna vs = length (filter (\<lambda>v. \<not> isna v) vs)"

fun int_key :: "pyobj \<Rightarrow> int option" where
  "int_key (PInt n) = Some n"
| "int_key _ = None"

fun str_key :: "pyobj \<Rightarrow> string option" where
  "str_key (PStr s) = Some s"
| "str_key _ = None"

text \<open>
  Lines 138 to 141.  The sum of the floats of a group is computed by pandas' own
  summation; it is the parameter \<open>fsum\<close>, given the values that are not \<^verbatim>\<open>NaN\<close>.
\<close>

definition yearly_summary ::
    "(rat list \<Rightarrow> rat) \<Rightarrow> pyobj list \<Rightarrow> pyobj list \<Rightarrow> pyobj list \<Rightarrow> (int \<times> nat \<times> rat) list" where
  "yearly_summary fsum years names sizes =
     map (\<lambda>y. (y, count_notna (group_rows (map int_key years) names y),
               fsum (concat (map (\<lambda>v. case number v of None \<Rightarrow> [] | Some x \<Rightarrow> [x])
                      (group_rows (map int_key years) sizes y)))))
       (group_keys (map int_key years))"

text \<open>Lines 145 to 147.\<close>

definition monthly_uploads :: "pyobj list \<Rightarrow> pyobj list \<Rightarrow> (string \<times> nat) list" where
  "monthly_uploads month_years names =
     map (\<lambda>m. (m, count_notna (group_rows (map str_key month_years) names m)))
       (group_keys (map str_key month_years))"

text \<open>
  \<^verbatim>\<open>s.value_counts()\<close>: the distinct values that are not missing with the number of
  their rows, the most frequent first (values of equal frequency in the order of their
  first row).  A list or a dict cannot be hashed.
\<close>

fun hashable :: "pyobj \<Rightarrow> bool" where
  "hashable (PList xs) = False"
| "hashable (PDict d) = False"
| "hashable _ = True"

definition value_counts :: "pyobj list \<Rightarrow> error + (pyobj \<times> nat) list" where
  "value_counts vs =
     (if list_all hashable vs then
        Inr (sort_key (\<lambda>(v, c). - int c)
              (map (\<lambda>v. (v, length (filter (\<lambda>w. w = v) vs)))
                 (unique (filter (\<lambda>v. \<not> isna v) vs))))
      else Inl TypeError)"

text \<open>\<^verbatim>\<open>len(df[df["downloads"] == 0])\<close>, line 163.\<close>

fun is_zero :: "pyobj \<Rightarrow> bool" where
  "is_zero (PInt n) = (n = 0)"
| "is_zero (PFloat x) = (x = 0)"
| "is_zero (PBool b) = (\<not> b)"
| "is_zero _ = False"

definition zero_downloads :: "pyobj list \<Rightarrow> nat" where
  "zero_downloads downloads = length (filter is_zero downloads)"

text \<open>
  Lines 128 to 151: the derived columns and the summary tables.  The result holds the
  frame with its four new columns, the download-range table, the yearly summary, the
  monthly uploads and the uploads by user.
\<close>

record summaries =
  frame :: dataframe
  download_table :: "(string \<times> nat) list"
  yearly_table :: "(int \<times> nat \<times> rat) list"
  monthly_table :: "(string \<times> nat) list"
  user_table :: "(pyobj \<times> nat) list"

definition summarise :: "(rat list \<Rightarrow> rat) \<Rightarrow> dataframe \<Rightarrow> error + summaries" where
  "summarise fsum df =
     sbind (getcol df ''created'') (\<lambda>c1.
     sbind (dt_field (\<lambda>t. PInt (int (year t))) c1) (\<lambda>year_col.
     let df1 = setcol df ''year'' year_col in
     sbind (getcol df1 ''created'') (\<lambda>c2.
     sbind (dt_field (\<lambda>t. PInt (int (month t))) c2) (\<lambda>month_col.
     let df2 = setcol df1 ''month'' month_col in
     sbind (getcol df2 ''size'') (\<lambda>sz.
     sbind (apply_bytes_to_gb sz) (\<lambda>gb.
     let df3 = setcol df2 ''size_in_gb'' gb in
     sbind (getcol df3 ''downloads'') (\<lambda>dl.
     sbind (download_ranges dl) (\<lambda>ranges.
     sbind (getcol df3 ''year'') (\<lambda>yc.
     sbind (getcol df3 ''name'') (\<lambda>nc.
     sbind (getcol df3 ''size_in_gb'') (\<lambda>gc.
     sbind (getcol df3 ''created'') (\<lambda>c3.
     sbind (dt_field (\<lambda>t. PStr (strftime_month_year t)) c3) (\<lambda>my.
     let df4 = setcol df3 ''month_year'' my in
     sbind (getcol df4 ''month_year'') (\<lambda>myc.
     sbind (getcol df4 ''name'') (\<lambda>nc'.
     sbind (getcol df4 ''created_by'') (\<lambda>cb.
     sbind (value_counts (cells cb)) (\<lambda>users.
       Inr \<lparr> frame = df4,
             download_table = download_summary ranges (cells dl),
             yearly_table = yearly_summary fsum (cells yc) (cells nc) (cells gc),
             monthly_table = monthly_uploads (cells myc) (cells nc'),
             user_table = users \<rparr>)))))))))))))))))"

text \<open>
  The workbook.  The sheet \<^verbatim>\<open>Summary\<close> is a stack of blocks, each with the row it starts
  at; the sheet \<^verbatim>\<open>Graphs\<close> holds images, each with its anchor cell and its file.
\<close>

datatype block =
    Key_metrics nat "(pyobj \<times> nat) list" "(pyobj \<times> nat) list"
  | Download_block "(string \<times> nat) list"
  | Yearly_block "(int \<times> nat \<times> rat) list"
  | Monthly_block "(string \<times> nat) list"
  | User_block "(pyobj \<times> nat) list"

record workbook =
  data_sheet :: dataframe
  summary_sheet :: "(nat \<times> block) list"
  graphs_sheet :: "(string \<times> string) list"

datatype chart =
    Bar_chart string "(pyobj \<times> nat) list"
  | Pie_chart string "(pyobj \<times> nat) list"

text \<open>What the run does to the outside world, in order.\<close>

datatype event =
    Post request
  | Print string
  | Makedirs string
  | Savefig string chart
  | Save_workbook string workbook

text \<open>\<^verbatim>\<open>sort_index()\<close> of the counts per year, line 193.\<close>

definition sort_index :: "(pyobj \<times> nat) list \<Rightarrow> (pyobj \<times> nat) list" where
  "sort_index vc = sort_key (\<lambda>(v, c). case v of PInt y \<Rightarrow> y | _ \<Rightarrow> 0) vc"

text \<open>
  Lines 191 to 218: each chart is drawn, saved and inserted, in order.  Drawing is
  matplotlib's business and may raise (it does on empty data): \<open>render\<close> is a parameter.
  The first chart that raises ends the block; the images before it are in the sheet.
\<close>

fun draw_charts ::
    "(chart \<Rightarrow> error option) \<Rightarrow> (string \<times> string \<times> chart) list
      \<Rightarrow> event list \<times> (string \<times> string) list \<times> error option" where
  "draw_charts render [] = ([], [], None)"
| "draw_charts render ((anchor, file, c) # rest) =
     (case render c of
        Some e \<Rightarrow> ([], [], Some e)
      | None \<Rightarrow>
          (case draw_charts render rest of
             (evs, imgs, r) \<Rightarrow> (Savefig file c # evs, (anchor, file) # imgs, r)))"

text \<open>
  Lines 158 to 220.  The workbook is saved when the \<^verbatim>\<open>with\<close> block is left, also when
  it is left by an exception.  \<open>images_exist\<close> says whether the directory \<^verbatim>\<open>images\<close> is
  there already.
\<close>

definition write_workbook ::
    "(chart \<Rightarrow> error option) \<Rightarrow> bool \<Rightarrow> summaries \<Rightarrow> string \<Rightarrow> error + event list \<times> error option" where
  "write_workbook render images_exist S file =
     sbind (getcol (frame S) ''downloads'') (\<lambda>dl.
     sbind (getcol (frame S) ''created'') (\<lambda>c.
     sbind (dt_field (\<lambda>t. PInt (int (year t))) c) (\<lambda>yc.
     sbind (value_counts (cells yc)) (\<lambda>yearly_uploads.
     sbind (getcol (frame S) ''created_by'') (\<lambda>cb.
     sbind (value_counts (cells cb)) (\<lambda>by_user.
       let n1 = 3;
           n2 = length (download_table S);
           n3 = length (yearly_table S);
           n4 = length (monthly_table S);
           summary =
             [(0, Key_metrics (zero_downloads (cells dl)) yearly_uploads by_user),
              (n1 + 2, Download_block (download_table S)),
              (n1 + n2 + 4, Yearly_block (yearly_table S)),
              (n1 + n2 + n3 + 6, Monthly_block (monthly_table S)),
              (n1 + n2 + n3 + n4 + 8, User_block (user_table S))];
           charts =
             [(''B2'', ''images/yearly_uploads.png'',
                 Bar_chart ''Yearly Uploads'' (sort_index yearly_uploads)),
              (''B20'', ''images/uploads_by_user.png'',
                 Pie_chart ''Uploads by User'' (user_table S)),
              (''B40'', ''images/monthly_uploads.png'',
                 Bar_chart ''Monthly Uploads Breakdown''
                   (map (\<lambda>(m, n). (PStr m, n)) (monthly_table S)))]
       in case draw_charts render charts of
            (evs, imgs, r) \<Rightarrow>
              Inr ((if images_exist then [] else [Makedirs ''images'']) @ evs @
                   [Save_workbook file
                      \<lparr> data_sheet = frame S, summary_sheet = summary, graphs_sheet = imgs \<rparr>],
                   r)))))))"

text \<open>
  \<^verbatim>\<open>write_to_excel\<close>, lines 126 to 220; \<open>now\<close> is what \<^verbatim>\<open>datetime.now()\<close> reads at
  line 154.  The result is what was done and the exception that ended it, if any.
\<close>

definition write_to_excel ::
    "(chart \<Rightarrow> error option) \<Rightarrow> (rat list \<Rightarrow> rat) \<Rightarrow> timestamp \<Rightarrow> bool \<Rightarrow> dataframe \<Rightarrow> string
      \<Rightarrow> event list \<times> error option" where
  "write_to_excel render fsum now images_exist df repository_name =
     (case summarise fsum df of
        Inl e \<Rightarrow> ([], Some e)
      | Inr S \<Rightarrow>
          (let file = filename repository_name now in
           case write_workbook render images_exist S file of
             Inl e \<Rightarrow> ([], Some e)
           | Inr (evs, Some e) \<Rightarrow> (evs, Some e)
           | Inr (evs, None) \<Rightarrow>
               (evs @ [Print (''Excel file '' @ [CHR 0x27] @ file @ [CHR 0x27] @
                              '' created successfully!'')], None)))"

section \<open>The run: \<^verbatim>\<open>execute_aql_query\<close> and \<^verbatim>\<open>main\<close>\<close>

text \<open>
  \<^verbatim>\<open>execute_aql_query\<close>, lines 49 to 59, given what the network answers to the request.
  \<^verbatim>\<open>raise_for_status\<close> raises for the status codes 400 to 599.  Every
  \<^verbatim>\<open>RequestException\<close> is caught: its message is printed and the result is \<^verbatim>\<open>None\<close>.
\<close>

definition execute_aql_query ::
    "(request \<Rightarrow> http_outcome) \<Rightarrow> string \<Rightarrow> string \<Rightarrow> string \<Rightarrow> string \<Rightarrow> event list \<times> pyobj" where
  "execute_aql_query post aql_query url user pass =
     (let req = \<lparr> req_url = url @ ''/api/search/aql'', req_user = user,
                   req_password = pass, req_data = aql_query \<rparr>
      in case post req of
           Request_failed msg \<Rightarrow>
             ([Post req, Print (''Error executing AQL query: '' @ msg)], PNone)
         | Response status http_error body \<Rightarrow>
             if 400 \<le> status \<and> status < 600
             then ([Post req, Print (''Error executing AQL query: '' @ http_error)], PNone)
             else (case body of
                     Inl msg \<Rightarrow> ([Post req, Print (''Error executing AQL query: '' @ msg)], PNone)
                   | Inr v \<Rightarrow> ([Post req], v)))"

text \<open>
  What the run depends on and the script does not decide: the answer of the network to
  the \<open>k\<close>-th request, the clock at the \<open>k\<close>-th report, pandas' parser of dates,
  matplotlib's drawing, and pandas' summation of floats.
\<close>

record env =
  net :: "nat \<Rightarrow> request \<Rightarrow> http_outcome"
  clock :: "nat \<Rightarrow> timestamp"
  parse :: "pyobj list \<Rightarrow> error + series"
  render :: "chart \<Rightarrow> error option"
  fsum :: "rat list \<Rightarrow> rat"

text \<open>Lines 235 to 237: the three stages on a result that passed the test of line 234.\<close>

definition report :: "env \<Rightarrow> nat \<Rightarrow> bool \<Rightarrow> pyobj \<Rightarrow> string \<Rightarrow> event list \<times> error option" where
  "report E k images_exist result repository_name =
     (case process_results (parse E) result of
        Inl e \<Rightarrow> ([], Some e)
      | Inr (df, warnings) \<Rightarrow>
          (case remove_timezone (parse E) df of
             Inl e \<Rightarrow> (map Print warnings, Some e)
           | Inr df' \<Rightarrow>
               (case write_to_excel (render E) (fsum E) (clock E k) images_exist df' repository_name of
                  (evs, r) \<Rightarrow> (map Print warnings @ evs, r))))"

text \<open>
  The loop of lines 226 to 239 over the repository names that are left; \<open>k\<close> counts the
  names done.  An exception that nothing catches ends the run.
\<close>

fun main_loop ::
    "env \<Rightarrow> string \<Rightarrow> string \<Rightarrow> string \<Rightarrow> nat \<Rightarrow> bool \<Rightarrow> string list \<Rightarrow> event list \<times> error option" where
  "main_loop E url user pass k images_exist [] = ([], None)"
| "main_loop E url user pass k images_exist (repository_name # rest) =
     (let aql_query = generate_aql_query repository_name;
          head = [Print (''Processing repository: '' @ repository_name),
                  Print (''Generated AQL query: '' @ aql_query)]
      in case execute_aql_query (net E k) aql_query url user pass of
           (evs, result) \<Rightarrow>
             if truthy result then
               (case report E k images_exist result repository_name of
                  (evs', Some e) \<Rightarrow> (head @ evs @ evs', Some e)
                | (evs', None) \<Rightarrow>
                    (case main_loop E url user pass (Suc k) True rest of
                       (evs'', r) \<Rightarrow> (head @ evs @ evs' @ evs'', r)))
             else
               (case main_loop E url user pass (Suc k) images_exist rest of
                  (evs'', r) \<Rightarrow>
                    (head @ evs @
                     [Print (''Failed to retrieve data for repository '' @ repository_name @ ''.'')]
                     @ evs'', r)))"

text \<open>\<^verbatim>\<open>main\<close>, lines 223 to 239.\<close>

definition main :: "env \<Rightarrow> environ \<Rightarrow> cli \<Rightarrow> bool \<Rightarrow> event list \<times> error option" where
  "main E getenv c images_exist =
     (case get_configuration getenv c of
        Inl e \<Rightarrow> ([], Some e)
      | Inr (url, user, pass, names) \<Rightarrow> main_loop E url user pass 0 images_exist names)"

text \<open>The network calls of a run.\<close>

fun is_post :: "event \<Rightarrow> bool" where
  "is_post (Post r) = True"
| "is_post _ = False"

definition network_calls :: "event list \<Rightarrow> event list" where
  "network_calls evs = filter is_post evs"

section \<open>Auxiliary notions and example inputs\<close>

text \<open>An item whose list of usage statistics is empty.\<close>

definition item_no_downloads :: "(string \<times> pyobj) list" where
  "item_no_downloads = [(''repo'', PStr ''libs''), (''name'', PStr ''a.jar''), (''stats'', PList [])]"

text \<open>The request that line 54 sends for a repository name.\<close>

definition request_for :: "string \<Rightarrow> string \<Rightarrow> string \<Rightarrow> string \<Rightarrow> request" where
  "request_for url user pass repository_name =
     \<lparr> req_url = url @ ''/api/search/aql'', req_user = user, req_password = pass,
       req_data = generate_aql_query repository_name \<rparr>"

text \<open>
  Two items of a repository, and a response that holds them.  The second item has no
  usage statistics and a date that does not parse.
\<close>

definition example_item1 :: pyobj where
  "example_item1 = PDict
     [(''repo'', PStr ''libs''), (''path'', PStr ''org/acme''), (''name'', PStr ''a.jar''),
      (''type'', PStr ''file''), (''size'', PInt 1073741824),
      (''created'', PStr ''2024-01-15T10:30:00.000+02:00''), (''created_by'', PStr ''bob''),
      (''modified'', PStr ''2024-01-15T10:30:00.000+02:00''), (''modified_by'', PStr ''bob''),
      (''updated'', PStr ''2024-01-15T10:30:00.000+02:00''),
      (''stats'', PList [PDict [(''downloads'', PInt 10), (''downloaded_by'', PStr ''amy'')]])]"

definition example_item2 :: pyobj where
  "example_item2 = PDict
     [(''repo'', PStr ''libs''), (''path'', PStr ''org/acme''), (''name'', PStr ''b.jar''),
      (''type'', PStr ''file''), (''size'', PInt 134217728),
      (''created'', PStr ''2023-11-02T08:00:00.000+02:00''), (''created_by'', PStr ''amy''),
      (''modified'', PStr ''yesterday''), (''modified_by'', PStr ''amy'')]"

definition example_body :: pyobj where
  "example_body = PDict [(''results'', PList [example_item1, example_item2])]"

text \<open>A parser of dates that knows the two dates above and coerces the rest to \<^verbatim>\<open>NaT\<close>.\<close>

definition example_parse :: "pyobj list \<Rightarrow> error + series" where
  "example_parse vs =
     Inr (Datetime (Some (FixedOffset 120))
       (map (\<lambda>v. if v = PStr ''2024-01-15T10:30:00.000+02:00''
                  then Some \<lparr> year = 2024, month = 1, day = 15, hour = 10, minute = 30, second = 0 \<rparr>
                  else if v = PStr ''2023-11-02T08:00:00.000+02:00''
                  then Some \<lparr> year = 2023, month = 11, day = 2, hour = 8, minute = 0, second = 0 \<rparr>
                  else None) vs))"

text \<open>
  A run in which the network refuses the first request, answers the second with an empty
  JSON object, the third with the response above, and every later one with the status 503.
\<close>

definition example_env :: env where
  "example_env =
     \<lparr> net = (\<lambda>k r. if k = 0 then Request_failed ''connection refused''
                      else if k = 1 then Response 200 ''OK'' (Inr (PDict []))
                      else if k = 2 then Response 200 ''OK'' (Inr example_body)
                      else Response 503 ''503 Server Error: Service Unavailable'' (Inl [])),
       clock = (\<lambda>k. \<lparr> year = 2024, month = 3, day = 5, hour = 14, minute = 7, second = 10 * k \<rparr>),
       parse = example_parse,
       render = (\<lambda>c. None),
       fsum = sum_list \<rparr>"

text \<open>
  A run in which the network refuses the first request and answers every later one with
  an empty list of results.
\<close>

definition example_env_empty :: env where
  "example_env_empty =
     example_env
       \<lparr> net := (\<lambda>k r. if k = 0 then Request_failed ''connection refused''
                        else Response 200 ''OK'' (Inr (PDict [(''results'', PList [])]))) \<rparr>"

text \<open>An environment and a command line that leave the password out.\<close>

definition example_environ :: environ where
  "example_environ =
     [''ARTIFACTORY_URL'' \<mapsto> ''https://repo.example'', ''USERNAME'' \<mapsto> ''reader'',
      ''REPOSITORY_NAMES'' \<mapsto> ''libs-release,libs-snapshot'']"

definition example_cli :: cli where
  "example_cli =
     \<lparr> cli_artifactory_url = None, cli_username = None, cli_password = None,
       cli_repository_names = None \<rparr>"

text \<open>
  A frame holds the column \<open>s\<close> under the name \<open>k\<close>: the name occurs, and every column
  of that name is \<open>s\<close>.
\<close>

definition holds_col :: "dataframe \<Rightarrow> string \<Rightarrow> series \<Rightarrow> bool" where
  "holds_col df k s = (k \<in> fst ` set df \<and> (\<forall>c\<in>set df. fst c = k \<longrightarrow> snd c = s))"

text \<open>A frame with dates in a zone, one of which does not parse.\<close>

definition example_frame :: dataframe where
  "example_frame =
     [(''name'', Object [PStr ''a.jar'', PStr ''b.jar'']),
      (''created'', Object [PStr ''2024-01-15T10:30:00.000+02:00'',
                          PStr ''2023-11-02T08:00:00.000+02:00'']),
      (''modified'', Object [PStr ''2024-01-15T10:30:00.000+02:00'', PStr ''yesterday''])]"

definition example_frame_naive :: dataframe where
  "example_frame_naive =
     [(''name'', Object [PStr ''a.jar'', PStr ''b.jar'']),
      (''created'', Datetime None
         [Some \<lparr> year = 2024, month = 1, day = 15, hour = 10, minute = 30, second = 0 \<rparr>,
          Some \<lparr> year = 2023, month = 11, day = 2, hour = 8, minute = 0, second = 0 \<rparr>]),
      (''modified'', Datetime None
         [Some \<lparr> year = 2024, month = 1, day = 15, hour = 10, minute = 30, second = 0 \<rparr>,
          None])]"

text \<open>
  The times that a \<^verbatim>\<open>datetime\<close> can hold, and the relation of two times that lie in the
  same minute.
\<close>

definition valid_timestamp :: "timestamp \<Rightarrow> bool" where
  "valid_timestamp t =
     (1 \<le> year t \<and> year t \<le> 9999 \<and> 1 \<le> month t \<and> month t \<le> 12 \<and>
      1 \<le> day t \<and> day t \<le> 31 \<and> hour t < 24 \<and> minute t < 60 \<and> second t < 60)"

definition same_minute :: "timestamp \<Rightarrow> timestamp \<Rightarrow> bool" where
  "same_minute t1 t2 =
     (year t1 = year t2 \<and> month t1 = month t2 \<and> day t1 = day t2 \<and>
      hour t1 = hour t2 \<and> minute t1 = minute t2)"

text \<open>Two runs in the same minute, ten seconds apart.\<close>

definition run_at_140710 :: timestamp where
  "run_at_140710 = \<lparr> year = 2024, month = 3, day = 5, hour = 14, minute = 7, second = 10 \<rparr>"

definition run_at_140720 :: timestamp where
  "run_at_140720 = \<lparr> year = 2024, month = 3, day = 5, hour = 14, minute = 7, second = 20 \<rparr>"

definition run_at_140810 :: timestamp where
  "run_at_140810 = \<lparr> year = 2024, month = 3, day = 5, hour = 14, minute = 8, second = 10 \<rparr>"

text \<open>
  An item whose first entry of usage statistics is empty, and one whose first entry holds
  the number of downloads only.
\<close>

definition item_empty_entry :: "(string \<times> pyobj) list" where
  "item_empty_entry = [(''repo'', PStr ''libs''), (''name'', PStr ''a.jar''), (''stats'', PList [PDict []])]"

definition item_some_downloads :: "(string \<times> pyobj) list" where
  "item_some_downloads =
     [(''repo'', PStr ''libs''), (''name'', PStr ''a.jar''),
      (''stats'', PList [PDict [(''downloads'', PInt 7)]])]"

section \<open>Properties of the normaliser\<close>

lemma sbind_Inr: "sbind (Inr v) f = f v"
  by (simp add: sbind_def)

lemma sbind_Inl: "sbind (Inl e) f = Inl e"
  by (simp add: sbind_def)

lemma stat_field_absent:
  "map_of d ''stats'' = None \<Longrightarrow> stat_field (PDict d) f dflt = Inr dflt"
  by (simp add: stat_field_def sbind_Inr)

lemma stat_field_present:
  "map_of d ''stats'' = Some v \<Longrightarrow>
     stat_field (PDict d) f dflt = sbind (py_item0 v) (\<lambda>entry. py_get entry f dflt)"
  by (simp add: stat_field_def sbind_Inr)

lemma process_item_absent:
  assumes "map_of d ''stats'' = None"
  shows "process_item (PDict d) = Inr
     [(''repo'', case map_of d ''repo'' of None \<Rightarrow> PNone | Some v \<Rightarrow> v),
      (''path'', case map_of d ''path'' of None \<Rightarrow> PNone | Some v \<Rightarrow> v),
      (''name'', case map_of d ''name'' of None \<Rightarrow> PNone | Some v \<Rightarrow> v),
      (''type'', case map_of d ''type'' of None \<Rightarrow> PNone | Some v \<Rightarrow> v),
      (''size'', case map_of d ''size'' of None \<Rightarrow> PNone | Some v \<Rightarrow> v),
      (''created'', case map_of d ''created'' of None \<Rightarrow> PNone | Some v \<Rightarrow> v),
      (''created_by'', case map_of d ''created_by'' of None \<Rightarrow> PNone | Some v \<Rightarrow> v),
      (''modified'', case map_of d ''modified'' of None \<Rightarrow> PNone | Some v \<Rightarrow> v),
      (''modified_by'', case map_of d ''modified_by'' of None \<Rightarrow> PNone | Some v \<Rightarrow> v),
      (''updated'', case map_of d ''updated'' of None \<Rightarrow> PNone | Some v \<Rightarrow> v),
      (''downloads'', PInt 0),
      (''downloaded_by'', PStr ''N/A''),
      (''last_downloaded'', PStr ''N/A'')]"
  unfolding process_item_def
  by (simp only: stat_field_absent [OF assms] py_get.simps dict_literal.simps sbind_Inr)

text \<open>
  C3.  An item that has no entry \<^verbatim>\<open>stats\<close> is normalised without an exception, and its
  row has \<^verbatim>\<open>downloads\<close> = 0, \<^verbatim>\<open>downloaded_by\<close> = "N/A" and \<^verbatim>\<open>last_downloaded\<close> = "N/A".
\<close>

theorem missing_stats_defaults:
  assumes "map_of d ''stats'' = None"
  shows "\<exists>row. process_item (PDict d) = Inr row \<and>
           map_of row ''downloads'' = Some (PInt 0) \<and>
           map_of row ''downloaded_by'' = Some (PStr ''N/A'') \<and>
           map_of row ''last_downloaded'' = Some (PStr ''N/A'')"
  unfolding process_item_absent [OF assms] by simp

theorem missing_stats_defaults_witness:
  "map_of [(''repo'', PStr ''libs''), (''size'', PInt 5)] ''stats'' = None \<and>
   (\<exists>row. process_item (PDict [(''repo'', PStr ''libs''), (''size'', PInt 5)]) = Inr row \<and>
           map_of row ''downloads'' = Some (PInt 0) \<and>
           map_of row ''downloaded_by'' = Some (PStr ''N/A'') \<and>
           map_of row ''last_downloaded'' = Some (PStr ''N/A''))"
  using missing_stats_defaults [of "[(''repo'', PStr ''libs''), (''size'', PInt 5)]"] by simp

lemma traverse_append_Inl:
  "traverse f pre = Inr ys \<Longrightarrow> f x = Inl e \<Longrightarrow> traverse f (pre @ x # post) = Inl e"
  by (induction pre arbitrary: ys) (auto simp: sbind_def split: sum.splits)

lemma traverse_mem_Inl:
  "x \<in> set xs \<Longrightarrow> f x = Inl e \<Longrightarrow> \<exists>e'. traverse f xs = Inl e'"
  by (induction xs) (auto simp: sbind_def split: sum.splits)

lemma process_item_empty_stats:
  "map_of d ''stats'' = Some (PList []) \<Longrightarrow> process_item (PDict d) = Inl IndexError"
  unfolding process_item_def
  by (simp only: stat_field_present py_get.simps py_item0.simps dict_literal.simps
        sbind_Inr sbind_Inl)

lemma process_results_Inl:
  "processed_results r = Inl e \<Longrightarrow> process_results p r = Inl e"
  by (simp add: process_results_def sbind_Inl)

lemma stat_field_entry:
  "map_of d ''stats'' = Some (PList (PDict e # es)) \<Longrightarrow>
     stat_field (PDict d) f dflt = Inr (case map_of e f of None \<Rightarrow> dflt | Some x \<Rightarrow> x)"
  by (simp add: stat_field_present sbind_Inr)

text \<open>
  C9, as the code has it.  An item whose \<^verbatim>\<open>stats\<close> is present and is the empty list
  makes the normaliser raise \<^verbatim>\<open>IndexError\<close> instead of substituting the defaults: each of
  the three statistics fields raises it, so does the row, and so does
  \<^verbatim>\<open>process_results\<close> on a response in which the items before this one are normalised;
  wherever the item stands in the response, \<^verbatim>\<open>process_results\<close> ends with an
  exception.  The defaults are substituted when the key \<^verbatim>\<open>stats\<close> is absent, and also,
  field by field, when the key is present and the first entry of its list is a dict that
  lacks the field.
\<close>

theorem empty_stats_list_raises:
  assumes "map_of d ''stats'' = Some (PList [])"
  shows "process_item (PDict d) = Inl IndexError \<and>
         (\<forall>f dflt. stat_field (PDict d) f dflt = Inl IndexError) \<and>
         (\<forall>p r pre post rows.
            map_of r ''results'' = Some (PList (pre @ PDict d # post)) \<and>
            traverse process_item pre = Inr rows \<longrightarrow>
            process_results p (PDict r) = Inl IndexError) \<and>
         (\<forall>p r items.
            map_of r ''results'' = Some (PList items) \<and> PDict d \<in> set items \<longrightarrow>
            (\<exists>e. process_results p (PDict r) = Inl e)) \<and>
         (\<forall>d' f dflt. map_of d' ''stats'' = None \<longrightarrow>
            stat_field (PDict d') f dflt = Inr dflt) \<and>
         (\<forall>d' e es f dflt. map_of d' ''stats'' = Some (PList (PDict e # es)) \<longrightarrow>
            stat_field (PDict d') f dflt =
              Inr (case map_of e f of None \<Rightarrow> dflt | Some x \<Rightarrow> x))"
proof -
  have item: "process_item (PDict d) = Inl IndexError"
    using assms by (rule process_item_empty_stats)
  have field: "stat_field (PDict d) f dflt = Inl IndexError" for f dflt
    using assms by (simp add: stat_field_present sbind_Inl)
  have first: "process_results p (PDict r) = Inl IndexError"
    if "map_of r ''results'' = Some (PList (pre @ PDict d # post))"
      and "traverse process_item pre = Inr rows" for p r pre post rows
  proof -
    have "processed_results (PDict r) = Inl IndexError"
      using that(1) traverse_append_Inl [OF that(2) item]
      by (simp add: processed_results_def sbind_Inr)
    then show ?thesis by (rule process_results_Inl)
  qed
  have some: "\<exists>e. process_results p (PDict r) = Inl e"
    if res: "map_of r ''results'' = Some (PList items)" and mem: "PDict d \<in> set items"
    for p r items
  proof -
    obtain e where "traverse process_item items = Inl e"
      using traverse_mem_Inl [of _ items process_item IndexError] mem item by blast
    then have "processed_results (PDict r) = Inl e"
      using res by (simp add: processed_results_def sbind_Inr)
    then show ?thesis using process_results_Inl by blast
  qed
  show ?thesis
    using item field first some stat_field_absent stat_field_entry by blast
qed

theorem empty_stats_list_raises_witness:
  "map_of item_no_downloads ''stats'' = Some (PList []) \<and>
   process_item (PDict item_no_downloads) = Inl IndexError \<and>
   process_results (\<lambda>vs. Inl ValueError) (PDict [(''results'', PList [PDict item_no_downloads])])
     = Inl IndexError \<and>
   stat_field (PDict item_some_downloads) ''downloads'' (PInt 0) = Inr (PInt 7) \<and>
   stat_field (PDict item_some_downloads) ''downloaded_by'' (PStr ''N/A'') = Inr (PStr ''N/A'')"
proof -
  have a: "map_of item_no_downloads ''stats'' = Some (PList [])"
    by (simp add: item_no_downloads_def)
  have b: "map_of [(''results'', PList [PDict item_no_downloads])] ''results''
             = Some (PList ([] @ PDict item_no_downloads # []))
           \<and> traverse process_item [] = Inr []"
    by simp
  have c: "map_of item_some_downloads ''stats''
             = Some (PList (PDict [(''downloads'', PInt 7)] # []))"
    by (simp add: item_some_downloads_def)
  note T = empty_stats_list_raises [OF a]
  have e: "stat_field (PDict item_some_downloads) f dflt =
             Inr (case map_of [(''downloads'', PInt 7)] f of None \<Rightarrow> dflt | Some x \<Rightarrow> x)"
    for f dflt
    using T c by blast
  have "stat_field (PDict item_some_downloads) ''downloads'' (PInt 0) = Inr (PInt 7)"
    and "stat_field (PDict item_some_downloads) ''downloaded_by'' (PStr ''N/A'') = Inr (PStr ''N/A'')"
    by (simp_all add: e)
  then show ?thesis
    using a b T by blast
qed

text \<open>
  C9, as it is stated, fails in its second half: the defaults are substituted not only
  when the key \<^verbatim>\<open>stats\<close> is absent.  An item whose \<^verbatim>\<open>stats\<close> is present and is the list
  of one empty dict gets all three defaults.
\<close>

theorem stats_present_defaults:
  "map_of item_empty_entry ''stats'' = Some (PList [PDict []]) \<and>
   process_item (PDict item_empty_entry) =
     Inr [(''repo'', PStr ''libs''), (''path'', PNone), (''name'', PStr ''a.jar''),
          (''type'', PNone), (''size'', PNone), (''created'', PNone), (''created_by'', PNone),
          (''modified'', PNone), (''modified_by'', PNone), (''updated'', PNone),
          (''downloads'', PInt 0), (''downloaded_by'', PStr ''N/A''),
          (''last_downloaded'', PStr ''N/A'')]"
proof -
  have s: "map_of item_empty_entry ''stats'' = Some (PList [PDict []])"
    by (simp add: item_empty_entry_def)
  have f: "stat_field (PDict item_empty_entry) f dflt = Inr dflt" for f dflt
    using stat_field_entry [OF s] by simp
  have g: "py_get (PDict item_empty_entry) ''repo'' PNone = Inr (PStr ''libs'')"
    "py_get (PDict item_empty_entry) ''path'' PNone = Inr PNone"
    "py_get (PDict item_empty_entry) ''name'' PNone = Inr (PStr ''a.jar'')"
    "py_get (PDict item_empty_entry) ''type'' PNone = Inr PNone"
    "py_get (PDict item_empty_entry) ''size'' PNone = Inr PNone"
    "py_get (PDict item_empty_entry) ''created'' PNone = Inr PNone"
    "py_get (PDict item_empty_entry) ''created_by'' PNone = Inr PNone"
    "py_get (PDict item_empty_entry) ''modified'' PNone = Inr PNone"
    "py_get (PDict item_empty_entry) ''modified_by'' PNone = Inr PNone"
    "py_get (PDict item_empty_entry) ''updated'' PNone = Inr PNone"
    by (simp_all add: item_empty_entry_def)
  have "process_item (PDict item_empty_entry) =
     Inr [(''repo'', PStr ''libs''), (''path'', PNone), (''name'', PStr ''a.jar''),
          (''type'', PNone), (''size'', PNone), (''created'', PNone), (''created_by'', PNone),
          (''modified'', PNone), (''modified_by'', PNone), (''updated'', PNone),
          (''downloads'', PInt 0), (''downloaded_by'', PStr ''N/A''),
          (''last_downloaded'', PStr ''N/A'')]"
    unfolding process_item_def
    by (simp only: f g dict_literal.simps sbind_Inr)
  with s show ?thesis by blast
qed

lemma report_empty_results:
  "report E k images_exist (PDict ((''results'', PList []) # other_entries)) repository_name =
     ([Print ''Warning: 'created' column is missing.''], Some KeyError)"
  by (simp add: report_def process_results_def processed_results_def DataFrame_def unique_def
      remove_timezone_def parse_col_def getcol_def sbind_Inr sbind_Inl)

text \<open>
  C1.  On a response whose list of results is empty (whatever else the response holds)
  the test of line 234 passes and the frame has no column; the warning of
  \<^verbatim>\<open>process_results\<close> is printed, and \<^verbatim>\<open>remove_timezone\<close> then raises \<^verbatim>\<open>KeyError\<close> at
  \<^verbatim>\<open>df['created']\<close>.  No workbook is written.
\<close>

theorem empty_result_list_raises:
  "truthy (PDict ((''results'', PList []) # other_entries)) \<and>
   report E k images_exist (PDict ((''results'', PList []) # other_entries)) repository_name =
     ([Print ''Warning: 'created' column is missing.''], Some KeyError)"
  by (simp add: report_def process_results_def processed_results_def DataFrame_def unique_def
      remove_timezone_def parse_col_def getcol_def sbind_Inr sbind_Inl)

subsection \<open>Time zones\<close>

lemma holds_col_getcol: "holds_col df k s \<Longrightarrow> getcol df k = Inr s"
proof -
  assume h: "holds_col df k s"
  then obtain v where v: "map_of df k = Some v"
    by (auto simp: holds_col_def dest!: weak_map_of_SomeI)
  then have "(k, v) \<in> set df" by (rule map_of_SomeD)
  with h have "v = s" by (auto simp: holds_col_def)
  with v show ?thesis by (simp add: getcol_def)
qed

lemma holds_col_setcol_same:
  assumes "holds_col df k s"
  shows "setcol df k s = df"
proof -
  have k: "k \<in> fst ` set df" and all: "\<And>c. c \<in> set df \<Longrightarrow> fst c = k \<Longrightarrow> snd c = s"
    using assms by (auto simp: holds_col_def)
  have "map (\<lambda>c. if fst c = k then (k, s) else c) df = df"
  proof (rule map_idI)
    fix c assume "c \<in> set df"
    then show "(if fst c = k then (k, s) else c) = c"
      using all [of c] by (cases c) auto
  qed
  with k show ?thesis by (simp add: setcol_def)
qed

lemma setcol_mem:
  assumes "c \<in> set df" and "fst c = k"
  shows "setcol df k s = map (\<lambda>c. if fst c = k then (k, s) else c) df"
    and "(k, s) \<in> set (setcol df k s)"
proof -
  have k: "k \<in> fst ` set df" using assms by auto
  then show eq: "setcol df k s = map (\<lambda>c. if fst c = k then (k, s) else c) df"
    by (simp add: setcol_def)
  have "(k, s) = (\<lambda>c. if fst c = k then (k, s) else c) c" using assms(2) by simp
  then have "(k, s) \<in> (\<lambda>c. if fst c = k then (k, s) else c) ` set df"
    using assms(1) by (rule image_eqI)
  then show "(k, s) \<in> set (setcol df k s)" by (simp add: eq)
qed

lemma setcol_holds: "holds_col (setcol df k s) k s"
proof -
  consider (old) "k \<in> fst ` set df" | (new) "k \<notin> fst ` set df" by blast
  then show ?thesis
  proof cases
    case old
    then obtain c where c: "c \<in> set df" "fst c = k" by auto
    have "(k, s) \<in> set (setcol df k s)" using c by (rule setcol_mem(2))
    then have "fst (k, s) \<in> fst ` set (setcol df k s)" by (rule imageI)
    then have "k \<in> fst ` set (setcol df k s)" by simp
    moreover have "\<forall>c\<in>set (setcol df k s). fst c = k \<longrightarrow> snd c = s"
      unfolding setcol_mem(1) [OF c] by auto
    ultimately show ?thesis by (simp add: holds_col_def)
  next
    case new
    then show ?thesis by (auto simp: holds_col_def setcol_def)
  qed
qed

lemma setcol_holds_other:
  assumes "k \<noteq> k'" and "holds_col df k s"
  shows "holds_col (setcol df k' s') k s"
proof -
  have k: "k \<in> fst ` set df" and all: "\<And>c. c \<in> set df \<Longrightarrow> fst c = k \<Longrightarrow> snd c = s"
    using assms(2) by (auto simp: holds_col_def)
  from k obtain c where c: "c \<in> set df" "fst c = k" by auto
  consider (old) "k' \<in> fst ` set df" | (new) "k' \<notin> fst ` set df" by blast
  then show ?thesis
  proof cases
    case old
    then have eq: "setcol df k' s' = map (\<lambda>c. if fst c = k' then (k', s') else c) df"
      by (simp add: setcol_def)
    have "c = (\<lambda>c. if fst c = k' then (k', s') else c) c" using c(2) assms(1) by simp
    then have "c \<in> (\<lambda>c. if fst c = k' then (k', s') else c) ` set df"
      using c(1) by (rule image_eqI)
    then have "c \<in> set (setcol df k' s')" by (simp add: eq)
    then have "fst c \<in> fst ` set (setcol df k' s')" by (rule imageI)
    then have "k \<in> fst ` set (setcol df k' s')" using c(2) by simp
    moreover have "\<forall>c\<in>set (setcol df k' s'). fst c = k \<longrightarrow> snd c = s"
      unfolding eq using all assms(1) by auto
    ultimately show ?thesis by (simp add: holds_col_def)
  next
    case new
    then show ?thesis using k all assms(1) by (auto simp: holds_col_def setcol_def)
  qed
qed

lemma parse_col_holds:
  assumes "parse_col p df k = Inr df'"
  shows "\<exists>c c'. getcol df k = Inr c \<and> to_datetime p c = Inr c' \<and> df' = setcol df k c'"
  using assms by (auto simp: parse_col_def sbind_def split: sum.splits)

lemma strip_tz_holds:
  assumes "strip_tz df k = Inr df'"
  shows "\<exists>tz ts. getcol df k = Inr (Datetime tz ts) \<and>
           (if tz \<noteq> None then df' = setcol df k (Datetime None ts) else df' = df)"
proof -
  obtain c where c: "getcol df k = Inr c"
    using assms by (auto simp: strip_tz_def sbind_def split: sum.splits)
  show ?thesis
  proof (cases c)
    case (Object vs)
    then show ?thesis using assms c by (simp add: strip_tz_def sbind_def)
  next
    case (Datetime tz ts)
    then show ?thesis using assms c by (auto simp: strip_tz_def sbind_def)
  qed
qed

lemma naive_parse_col:
  assumes "holds_col df k (Datetime None ts)"
  shows "parse_col p df k = Inr df"
  using holds_col_getcol [OF assms] holds_col_setcol_same [OF assms]
  by (simp add: parse_col_def sbind_def)

lemma naive_strip_tz:
  assumes "holds_col df k (Datetime None ts)"
  shows "strip_tz df k = Inr df"
  using holds_col_getcol [OF assms] by (simp add: strip_tz_def sbind_def)

lemma remove_timezone_naive:
  assumes "remove_timezone p df = Inr df'"
  shows "\<exists>ts ts'. holds_col df' ''created'' (Datetime None ts) \<and>
                  holds_col df' ''modified'' (Datetime None ts')"
proof -
  obtain df1 df2 df3 where
    1: "parse_col p df ''created'' = Inr df1" and
    2: "parse_col p df1 ''modified'' = Inr df2" and
    3: "strip_tz df2 ''created'' = Inr df3" and
    4: "strip_tz df3 ''modified'' = Inr df'"
    using assms by (auto simp: remove_timezone_def sbind_def split: sum.splits)
  obtain tz ts where c: "getcol df2 ''created'' = Inr (Datetime tz ts)"
    and df3: "if tz \<noteq> None then df3 = setcol df2 ''created'' (Datetime None ts) else df3 = df2"
    using strip_tz_holds [OF 3] by blast
  obtain m m' where df2: "df2 = setcol df1 ''modified'' m'"
    using parse_col_holds [OF 2] by blast
  obtain tz' ts' where m: "getcol df3 ''modified'' = Inr (Datetime tz' ts')"
    and df': "if tz' \<noteq> None then df' = setcol df3 ''modified'' (Datetime None ts') else df' = df3"
    using strip_tz_holds [OF 4] by blast
  obtain c0 c1 where df1: "df1 = setcol df ''created'' c1"
    using parse_col_holds [OF 1] by blast
  have h1: "holds_col df1 ''created'' c1" unfolding df1 by (rule setcol_holds)
  have h2c: "holds_col df2 ''created'' c1"
    unfolding df2 using h1 by (intro setcol_holds_other) simp_all
  have h2m: "holds_col df2 ''modified'' m'" unfolding df2 by (rule setcol_holds)
  have c1: "c1 = Datetime tz ts" using holds_col_getcol [OF h2c] c by simp
  have h3c: "holds_col df3 ''created'' (Datetime None ts)"
  proof (cases tz)
    case None
    then show ?thesis using df3 h2c c1 by simp
  next
    case (Some z)
    then show ?thesis using df3 by (simp add: setcol_holds)
  qed
  have h3m: "holds_col df3 ''modified'' m'"
  proof (cases tz)
    case None
    then show ?thesis using df3 h2m by simp
  next
    case (Some z)
    then have "df3 = setcol df2 ''created'' (Datetime None ts)" using df3 by simp
    then show ?thesis using h2m by (simp add: setcol_holds_other)
  qed
  have m': "m' = Datetime tz' ts'" using holds_col_getcol [OF h3m] m by simp
  have h4m: "holds_col df' ''modified'' (Datetime None ts')"
  proof (cases tz')
    case None
    then show ?thesis using df' h3m m' by simp
  next
    case (Some z)
    then show ?thesis using df' by (simp add: setcol_holds)
  qed
  have h4c: "holds_col df' ''created'' (Datetime None ts)"
  proof (cases tz')
    case None
    then show ?thesis using df' h3c by simp
  next
    case (Some z)
    then have "df' = setcol df3 ''modified'' (Datetime None ts')" using df' by simp
    then show ?thesis using h3c by (simp add: setcol_holds_other)
  qed
  show ?thesis using h4c h4m by blast
qed

text \<open>
  C7.  Stripping the time zones is idempotent: on the frame that \<^verbatim>\<open>remove_timezone\<close>
  returns, \<^verbatim>\<open>remove_timezone\<close> returns that same frame, with the same naive times in
  \<^verbatim>\<open>created\<close> and \<^verbatim>\<open>modified\<close>.
\<close>

theorem remove_timezone_idempotent:
  assumes "remove_timezone p df = Inr df'"
  shows "remove_timezone p df' = Inr df'"
proof -
  obtain ts ts' where c: "holds_col df' ''created'' (Datetime None ts)"
    and m: "holds_col df' ''modified'' (Datetime None ts')"
    using remove_timezone_naive [OF assms] by blast
  show ?thesis
    by (simp add: remove_timezone_def naive_parse_col [OF c] naive_parse_col [OF m]
        naive_strip_tz [OF c] naive_strip_tz [OF m] sbind_def)
qed

theorem remove_timezone_idempotent_witness:
  "remove_timezone example_parse example_frame = Inr example_frame_naive \<and>
   remove_timezone example_parse example_frame_naive = Inr example_frame_naive"
proof -
  have once: "remove_timezone example_parse example_frame = Inr example_frame_naive"
    by (simp add: remove_timezone_def parse_col_def strip_tz_def getcol_def setcol_def
        sbind_Inr example_parse_def example_frame_def example_frame_naive_def)
  from remove_timezone_idempotent [OF once] once show ?thesis by simp
qed

section \<open>Properties of the run\<close>

text \<open>
  C2.  When, after the command line and the environment are merged, the base URL, the
  user name or the password is missing or empty, or the list of repository names is
  empty, \<^verbatim>\<open>get_configuration\<close> raises \<^verbatim>\<open>ValueError\<close>; the run ends with it, and nothing
  was done before: in particular no request was sent.
\<close>

theorem missing_configuration_aborts:
  assumes "missing (artifactory_url (parse_args getenv c)) \<or>
           missing (username (parse_args getenv c)) \<or>
           missing (password (parse_args getenv c)) \<or>
           repository_names (parse_args getenv c) = []"
  shows "get_configuration getenv c = Inl ValueError \<and>
         main E getenv c images_exist = ([], Some ValueError) \<and>
         network_calls (fst (main E getenv c images_exist)) = []"
proof -
  have "get_configuration getenv c = Inl ValueError"
    using assms by (auto simp: get_configuration_def Let_def)
  then show ?thesis by (simp add: main_def network_calls_def)
qed

theorem missing_configuration_aborts_witness:
  "missing (password (parse_args example_environ example_cli)) \<and>
   repository_names (parse_args example_environ example_cli) = [''libs-release'', ''libs-snapshot''] \<and>
   main example_env example_environ example_cli False = ([], Some ValueError) \<and>
   network_calls (fst (main example_env example_environ example_cli False)) = []"
proof -
  have m: "missing (password (parse_args example_environ example_cli))"
    by (simp add: parse_args_def example_environ_def example_cli_def missing_def)
  have n: "repository_names (parse_args example_environ example_cli)
             = [''libs-release'', ''libs-snapshot'']"
    by (simp add: parse_args_def example_environ_def example_cli_def)
  show ?thesis
    using m n missing_configuration_aborts [of example_environ example_cli example_env False]
    by blast
qed

lemma failed_execute:
  assumes "post (request_for url user pass name) = Request_failed msg \<or>
           (\<exists>body st. post (request_for url user pass name) = Response st msg body \<and>
              400 \<le> st \<and> st < 600)"
  shows "execute_aql_query post (generate_aql_query name) url user pass =
           ([Post (request_for url user pass name),
             Print (''Error executing AQL query: '' @ msg)], PNone)"
  using assms by (auto simp: execute_aql_query_def request_for_def Let_def)

lemma execute_calls:
  "network_calls (fst (execute_aql_query post (generate_aql_query name) url user pass))
     = [Post (request_for url user pass name)]"
  by (simp add: execute_aql_query_def request_for_def network_calls_def Let_def
      split: http_outcome.splits sum.splits)

lemma draw_charts_events:
  "draw_charts rnd cs = (evs, imgs, r) \<Longrightarrow> filter is_post evs = []"
proof (induction cs arbitrary: evs imgs r)
  case Nil
  then show ?case by simp
next
  case (Cons c cs)
  obtain anchor path ch where c: "c = (anchor, path, ch)" by (cases c) auto
  show ?case
    using Cons.prems Cons.IH unfolding c
    by (auto split: option.splits prod.splits)
qed

lemma write_workbook_events:
  assumes "write_workbook rnd b S path = Inr (evs, r)"
  shows "filter is_post evs = [] \<and> (\<exists>wb. Save_workbook path wb \<in> set evs)"
  using assms unfolding write_workbook_def sbind_def Let_def
  by (auto simp del: draw_charts.simps split: sum.splits prod.splits
      dest: draw_charts_events)

lemma write_to_excel_posts:
  "filter is_post (fst (write_to_excel rnd fs now b df name)) = []"
proof -
  consider (a) e where "summarise fs df = Inl e"
    | (b) S e where "summarise fs df = Inr S"
        "write_workbook rnd b S (filename name now) = Inl e"
    | (c) S evs r where "summarise fs df = Inr S"
        "write_workbook rnd b S (filename name now) = Inr (evs, r)"
    by (metis sum.exhaust surj_pair)
  then show ?thesis
  proof cases
    case a
    then show ?thesis by (simp add: write_to_excel_def)
  next
    case b
    then show ?thesis by (simp add: write_to_excel_def Let_def)
  next
    case c
    from write_workbook_events [OF c(2)] have "filter is_post evs = []" by blast
    then show ?thesis using c by (cases r) (simp_all add: write_to_excel_def Let_def)
  qed
qed

lemma write_to_excel_saves:
  assumes "snd (write_to_excel rnd fs now b df name) = None"
  shows "\<exists>wb. Save_workbook (filename name now) wb
           \<in> set (fst (write_to_excel rnd fs now b df name))"
proof -
  consider (a) e where "summarise fs df = Inl e"
    | (b) S e where "summarise fs df = Inr S"
        "write_workbook rnd b S (filename name now) = Inl e"
    | (c) S evs r where "summarise fs df = Inr S"
        "write_workbook rnd b S (filename name now) = Inr (evs, r)"
    by (metis sum.exhaust surj_pair)
  then show ?thesis
  proof cases
    case a
    then show ?thesis using assms by (simp add: write_to_excel_def)
  next
    case b
    then show ?thesis using assms by (simp add: write_to_excel_def Let_def)
  next
    case c
    from write_workbook_events [OF c(2)]
    obtain wb where "Save_workbook (filename name now) wb \<in> set evs" by blast
    then show ?thesis using c assms
      by (cases r) (auto simp: write_to_excel_def Let_def)
  qed
qed

lemma filter_post_prints: "filter is_post (map Print ws) = []"
  by (induction ws) simp_all

lemma report_posts: "network_calls (fst (report E k b result name)) = []"
proof -
  consider (a) e where "process_results (parse E) result = Inl e"
    | (b) df ws e where "process_results (parse E) result = Inr (df, ws)"
        "remove_timezone (parse E) df = Inl e"
    | (c) df ws df' where "process_results (parse E) result = Inr (df, ws)"
        "remove_timezone (parse E) df = Inr df'"
    by (metis sum.exhaust surj_pair)
  then show ?thesis
  proof cases
    case a
    then show ?thesis by (simp add: report_def network_calls_def)
  next
    case b
    then show ?thesis by (simp add: report_def network_calls_def filter_post_prints)
  next
    case c
    obtain evs r where w: "write_to_excel (render E) (fsum E) (clock E k) b df' name = (evs, r)"
      by (metis surj_pair)
    have "filter is_post evs = []"
      using write_to_excel_posts [of "render E" "fsum E" "clock E k" b df' name] w by simp
    then show ?thesis
      using c w by (simp add: report_def network_calls_def filter_post_prints)
  qed
qed

lemma report_saves:
  assumes "snd (report E k b result name) = None"
  shows "\<exists>wb. Save_workbook (filename name (clock E k)) wb
           \<in> set (fst (report E k b result name))"
proof -
  consider (a) e where "process_results (parse E) result = Inl e"
    | (b) df ws e where "process_results (parse E) result = Inr (df, ws)"
        "remove_timezone (parse E) df = Inl e"
    | (c) df ws df' where "process_results (parse E) result = Inr (df, ws)"
        "remove_timezone (parse E) df = Inr df'"
    by (metis sum.exhaust surj_pair)
  then show ?thesis
  proof cases
    case a
    then show ?thesis using assms by (simp add: report_def)
  next
    case b
    then show ?thesis using assms by (simp add: report_def)
  next
    case c
    have "snd (write_to_excel (render E) (fsum E) (clock E k) b df' name) = None"
      using assms c by (simp add: report_def split: prod.splits)
    from write_to_excel_saves [OF this] show ?thesis
      using c by (auto simp: report_def split: prod.splits)
  qed
qed


lemma execute_result:
  "\<exists>evs result. execute_aql_query post (generate_aql_query name) url user pass = (evs, result)
      \<and> filter is_post evs = [Post (request_for url user pass name)]"
  using execute_calls [of post name url user pass]
  by (metis network_calls_def prod.collapse)

lemma main_loop_truthy:
  assumes "execute_aql_query (net E k) (generate_aql_query name) url user pass = (evs, result)"
    and "truthy result"
    and "report E k b result name = (evs', None)"
    and "main_loop E url user pass (Suc k) True rest = (evs'', r)"
  shows "main_loop E url user pass k b (name # rest) =
           ([Print (''Processing repository: '' @ name),
             Print (''Generated AQL query: '' @ generate_aql_query name)]
            @ evs @ evs' @ evs'', r)"
  using assms by (simp add: Let_def)

lemma main_loop_raises:
  assumes "execute_aql_query (net E k) (generate_aql_query name) url user pass = (evs, result)"
    and "truthy result"
    and "report E k b result name = (evs', Some e)"
  shows "main_loop E url user pass k b (name # rest) =
           ([Print (''Processing repository: '' @ name),
             Print (''Generated AQL query: '' @ generate_aql_query name)]
            @ evs @ evs', Some e)"
  using assms by (simp add: Let_def)

lemma main_loop_falsy:
  assumes "execute_aql_query (net E k) (generate_aql_query name) url user pass = (evs, result)"
    and "\<not> truthy result"
    and "main_loop E url user pass (Suc k) b rest = (evs'', r)"
  shows "main_loop E url user pass k b (name # rest) =
           ([Print (''Processing repository: '' @ name),
             Print (''Generated AQL query: '' @ generate_aql_query name)]
            @ evs @ [Print (''Failed to retrieve data for repository '' @ name @ ''.'')]
            @ evs'', r)"
  using assms by (simp add: Let_def)

lemma main_loop_calls:
  "snd (main_loop E url user pass k b names) = None \<Longrightarrow>
   network_calls (fst (main_loop E url user pass k b names))
     = map (\<lambda>n. Post (request_for url user pass n)) names"
proof (induction names arbitrary: k b)
  case Nil
  then show ?case by (simp add: network_calls_def)
next
  case (Cons name rest)
  obtain evs result where ex:
    "execute_aql_query (net E k) (generate_aql_query name) url user pass = (evs, result)"
    and p: "filter is_post evs = [Post (request_for url user pass name)]"
    using execute_result by blast
  consider (t) "truthy result" | (f) "\<not> truthy result" by blast
  then show ?case
  proof cases
    case t
    obtain evs' r where rep: "report E k b result name = (evs', r)" by (metis surj_pair)
    obtain evs'' r' where rec: "main_loop E url user pass (Suc k) True rest = (evs'', r')"
      by (metis surj_pair)
    have q: "filter is_post evs' = []"
      using report_posts [of E k b result name] rep by (simp add: network_calls_def)
    show ?thesis
    proof (cases r)
      case None
      note m = main_loop_truthy [OF ex t rep [unfolded None] rec]
      have "r' = None" using Cons.prems m by simp
      then have "snd (main_loop E url user pass (Suc k) True rest) = None" using rec by simp
      from Cons.IH [OF this] have "filter is_post evs''
          = map (\<lambda>n. Post (request_for url user pass n)) rest"
        using rec by (simp add: network_calls_def)
      then show ?thesis using m p q by (simp add: network_calls_def)
    next
      case (Some e)
      have "main_loop E url user pass k b (name # rest) =
           ([Print (''Processing repository: '' @ name),
             Print (''Generated AQL query: '' @ generate_aql_query name)]
            @ evs @ evs', Some e)"
        by (rule main_loop_raises [OF ex t rep [unfolded Some]])
      then show ?thesis using Cons.prems by simp
    qed
  next
    case f
    obtain evs'' r' where rec: "main_loop E url user pass (Suc k) b rest = (evs'', r')"
      by (metis surj_pair)
    note m = main_loop_falsy [OF ex f rec]
    have "r' = None" using Cons.prems m by simp
    then have "snd (main_loop E url user pass (Suc k) b rest) = None" using rec by simp
    from Cons.IH [OF this] have "filter is_post evs''
        = map (\<lambda>n. Post (request_for url user pass n)) rest"
      using rec by (simp add: network_calls_def)
    then show ?thesis using m p by (simp add: network_calls_def)
  qed
qed


lemma main_loop_saves:
  "snd (main_loop E url user pass k b names) = None \<Longrightarrow> i < length names \<Longrightarrow>
   truthy (snd (execute_aql_query (net E (k + i)) (generate_aql_query (names ! i)) url user pass))
   \<Longrightarrow> \<exists>wb. Save_workbook (filename (names ! i) (clock E (k + i))) wb
          \<in> set (fst (main_loop E url user pass k b names))"
proof (induction names arbitrary: k b i)
  case Nil
  then show ?case by simp
next
  case (Cons name rest)
  obtain evs result where ex:
    "execute_aql_query (net E k) (generate_aql_query name) url user pass = (evs, result)"
    by (metis surj_pair)
  consider (t) "truthy result" | (f) "\<not> truthy result" by blast
  then show ?case
  proof cases
    case t
    obtain evs' r where rep: "report E k b result name = (evs', r)" by (metis surj_pair)
    obtain evs'' r' where rec: "main_loop E url user pass (Suc k) True rest = (evs'', r')"
      by (metis surj_pair)
    have r: "r = None"
    proof (cases r)
      case None
      then show ?thesis .
    next
      case (Some e)
      have "main_loop E url user pass k b (name # rest) =
           ([Print (''Processing repository: '' @ name),
             Print (''Generated AQL query: '' @ generate_aql_query name)]
            @ evs @ evs', Some e)"
        by (rule main_loop_raises [OF ex t rep [unfolded Some]])
      then show ?thesis using Cons.prems(1) by simp
    qed
    note m = main_loop_truthy [OF ex t rep [unfolded r] rec]
    have r': "snd (main_loop E url user pass (Suc k) True rest) = None"
      using Cons.prems(1) m rec by simp
    show ?thesis
    proof (cases i)
      case 0
      have "snd (report E k b result name) = None" using rep r by simp
      from report_saves [OF this] obtain wb where
        "Save_workbook (filename name (clock E k)) wb \<in> set evs'" using rep by auto
      then show ?thesis using m 0 by auto
    next
      case (Suc j)
      have j: "j < length rest" using Cons.prems(2) Suc by simp
      have tj: "truthy (snd (execute_aql_query (net E (Suc k + j))
                  (generate_aql_query (rest ! j)) url user pass))"
        using Cons.prems(3) Suc by simp
      from Cons.IH [OF r' j tj] obtain wb where
        "Save_workbook (filename (rest ! j) (clock E (Suc k + j))) wb \<in> set evs''"
        using rec by auto
      then show ?thesis using m Suc by auto
    qed
  next
    case f
    obtain evs'' r' where rec: "main_loop E url user pass (Suc k) b rest = (evs'', r')"
      by (metis surj_pair)
    note m = main_loop_falsy [OF ex f rec]
    have r': "snd (main_loop E url user pass (Suc k) b rest) = None"
      using Cons.prems(1) m rec by simp
    show ?thesis
    proof (cases i)
      case 0
      then show ?thesis using Cons.prems(3) ex f by simp
    next
      case (Suc j)
      have j: "j < length rest" using Cons.prems(2) Suc by simp
      have tj: "truthy (snd (execute_aql_query (net E (Suc k + j))
                  (generate_aql_query (rest ! j)) url user pass))"
        using Cons.prems(3) Suc by simp
      from Cons.IH [OF r' j tj] obtain wb where
        "Save_workbook (filename (rest ! j) (clock E (Suc k + j))) wb \<in> set evs''"
        using rec by auto
      then show ?thesis using m Suc by auto
    qed
  qed
qed

text \<open>
  C5, as the code has it.  When the request for a repository fails in transport
  (\<^verbatim>\<open>requests.post\<close> raises) or is answered with a status from 400 to 599 (for which
  \<^verbatim>\<open>raise_for_status\<close> raises), \<^verbatim>\<open>execute_aql_query\<close> prints the error and returns
  \<^verbatim>\<open>None\<close>; the loop prints that the retrieval failed, writes nothing for this
  repository, and goes on with the remaining names exactly as a run on those names
  would.  Whenever that remaining run ends without an uncaught exception, the whole run
  does, every name of the list has been queried, in order, and every later repository
  whose result is truthy has its workbook saved under its own file name.
\<close>

theorem failed_query_is_skipped:
  assumes "net E k (request_for url user pass name) = Request_failed msg \<or>
           (\<exists>body st. net E k (request_for url user pass name) = Response st msg body \<and>
              400 \<le> st \<and> st < 600)"
  shows "execute_aql_query (net E k) (generate_aql_query name) url user pass =
           ([Post (request_for url user pass name),
             Print (''Error executing AQL query: '' @ msg)], PNone) \<and>
         main_loop E url user pass k images_exist (name # rest) =
           ([Print (''Processing repository: '' @ name),
             Print (''Generated AQL query: '' @ generate_aql_query name),
             Post (request_for url user pass name),
             Print (''Error executing AQL query: '' @ msg),
             Print (''Failed to retrieve data for repository '' @ name @ ''.'')]
            @ fst (main_loop E url user pass (Suc k) images_exist rest),
            snd (main_loop E url user pass (Suc k) images_exist rest)) \<and>
         (snd (main_loop E url user pass (Suc k) images_exist rest) = None \<longrightarrow>
            snd (main_loop E url user pass k images_exist (name # rest)) = None \<and>
            network_calls (fst (main_loop E url user pass k images_exist (name # rest)))
              = map (\<lambda>n. Post (request_for url user pass n)) (name # rest) \<and>
            (\<forall>i. i < length rest \<and>
                 truthy (snd (execute_aql_query (net E (Suc k + i))
                           (generate_aql_query (rest ! i)) url user pass)) \<longrightarrow>
                 (\<exists>wb. Save_workbook (filename (rest ! i) (clock E (Suc k + i))) wb
                    \<in> set (fst (main_loop E url user pass k images_exist (name # rest))))))"
proof -
  have ex: "execute_aql_query (net E k) (generate_aql_query name) url user pass =
           ([Post (request_for url user pass name),
             Print (''Error executing AQL query: '' @ msg)], PNone)"
    using assms by (rule failed_execute [of "net E k" url user pass name msg])
  have step: "main_loop E url user pass k images_exist (name # rest) =
           ([Print (''Processing repository: '' @ name),
             Print (''Generated AQL query: '' @ generate_aql_query name),
             Post (request_for url user pass name),
             Print (''Error executing AQL query: '' @ msg),
             Print (''Failed to retrieve data for repository '' @ name @ ''.'')]
            @ fst (main_loop E url user pass (Suc k) images_exist rest),
            snd (main_loop E url user pass (Suc k) images_exist rest))"
    by (simp add: ex Let_def split: prod.splits)
  have all: "snd (main_loop E url user pass k images_exist (name # rest)) = None \<and>
            network_calls (fst (main_loop E url user pass k images_exist (name # rest)))
              = map (\<lambda>n. Post (request_for url user pass n)) (name # rest) \<and>
            (\<forall>i. i < length rest \<and>
                 truthy (snd (execute_aql_query (net E (Suc k + i))
                           (generate_aql_query (rest ! i)) url user pass)) \<longrightarrow>
                 (\<exists>wb. Save_workbook (filename (rest ! i) (clock E (Suc k + i))) wb
                    \<in> set (fst (main_loop E url user pass k images_exist (name # rest)))))"
    if ok: "snd (main_loop E url user pass (Suc k) images_exist rest) = None"
  proof -
    have n: "snd (main_loop E url user pass k images_exist (name # rest)) = None"
      using step ok by simp
    note c = main_loop_calls [OF n]
    have "\<exists>wb. Save_workbook (filename (rest ! i) (clock E (Suc k + i))) wb
            \<in> set (fst (main_loop E url user pass k images_exist (name # rest)))"
      if i: "i < length rest"
        and t: "truthy (snd (execute_aql_query (net E (Suc k + i))
                           (generate_aql_query (rest ! i)) url user pass))" for i
    proof -
      from main_loop_saves [OF ok i t] obtain wb where
        "Save_workbook (filename (rest ! i) (clock E (Suc k + i))) wb
           \<in> set (fst (main_loop E url user pass (Suc k) images_exist rest))" by blast
      then show ?thesis unfolding step by auto
    qed
    then show ?thesis using n c by blast
  qed
  show ?thesis using ex step all by blast
qed

text \<open>
  The rest of the example run: an empty JSON object, a response with two items, and a
  status 503.  It ends without an exception.
\<close>

lemma example_rest_run:
  "snd (main_loop example_env ''https://repo.example'' ''reader'' ''secret'' (Suc 0) False
          [''libs-snapshot'', ''libs'', ''plugins'']) = None"
  by code_simp

theorem failed_query_is_skipped_witness:
  "net example_env 0 (request_for ''https://repo.example'' ''reader'' ''secret'' ''libs-release'')
     = Request_failed ''connection refused'' \<and>
   snd (main_loop example_env ''https://repo.example'' ''reader'' ''secret'' 0 False
          [''libs-release'', ''libs-snapshot'', ''libs'', ''plugins'']) = None \<and>
   network_calls
     (fst (main_loop example_env ''https://repo.example'' ''reader'' ''secret'' 0 False
             [''libs-release'', ''libs-snapshot'', ''libs'', ''plugins''])) =
     [Post (request_for ''https://repo.example'' ''reader'' ''secret'' ''libs-release''),
      Post (request_for ''https://repo.example'' ''reader'' ''secret'' ''libs-snapshot''),
      Post (request_for ''https://repo.example'' ''reader'' ''secret'' ''libs''),
      Post (request_for ''https://repo.example'' ''reader'' ''secret'' ''plugins'')] \<and>
   (\<exists>wb. Save_workbook ''libs-2024Mar05T1407HZ-stats.xlsx'' wb
      \<in> set (fst (main_loop example_env ''https://repo.example'' ''reader'' ''secret'' 0 False
                    [''libs-release'', ''libs-snapshot'', ''libs'', ''plugins''])))"
proof -
  let ?rest = "[''libs-snapshot'', ''libs'', ''plugins'']"
  have n: "net example_env 0
      (request_for ''https://repo.example'' ''reader'' ''secret'' ''libs-release'')
     = Request_failed ''connection refused''"
    by (simp add: example_env_def)
  then have h: "net example_env 0
      (request_for ''https://repo.example'' ''reader'' ''secret'' ''libs-release'')
     = Request_failed ''connection refused'' \<or>
     (\<exists>body st. net example_env 0
      (request_for ''https://repo.example'' ''reader'' ''secret'' ''libs-release'')
        = Response st ''connection refused'' body \<and> 400 \<le> st \<and> st < 600)"
    by (rule disjI1)
  note T = failed_query_is_skipped [OF h, of False ?rest]
  have i: "(1::nat) < length ?rest" by simp
  have t: "truthy (snd (execute_aql_query (net example_env (Suc 0 + 1))
             (generate_aql_query (?rest ! 1)) ''https://repo.example'' ''reader'' ''secret''))"
    by (simp add: execute_aql_query_def example_env_def example_body_def Let_def)
  have f: "filename (?rest ! 1) (clock example_env (Suc 0 + 1))
             = ''libs-2024Mar05T1407HZ-stats.xlsx''"
    by code_simp
  from T example_rest_run i t
  have "\<exists>wb. Save_workbook (filename (?rest ! 1) (clock example_env (Suc 0 + 1))) wb
      \<in> set (fst (main_loop example_env ''https://repo.example'' ''reader'' ''secret'' 0 False
                    (''libs-release'' # ?rest)))"
    by blast
  then have w: "\<exists>wb. Save_workbook ''libs-2024Mar05T1407HZ-stats.xlsx'' wb
      \<in> set (fst (main_loop example_env ''https://repo.example'' ''reader'' ''secret'' 0 False
                    (''libs-release'' # ?rest)))"
    unfolding f .
  from T example_rest_run
  have c: "snd (main_loop example_env ''https://repo.example'' ''reader'' ''secret'' 0 False
              (''libs-release'' # ?rest)) = None \<and>
        network_calls (fst (main_loop example_env ''https://repo.example'' ''reader'' ''secret''
              0 False (''libs-release'' # ?rest)))
          = map (\<lambda>n. Post (request_for ''https://repo.example'' ''reader'' ''secret'' n))
              (''libs-release'' # ?rest)"
    by blast
  show ?thesis using n c w by simp
qed

text \<open>
  C5, as it is stated, fails in two ways.  A status that is neither 2xx nor an error for
  \<^verbatim>\<open>raise_for_status\<close> (300, with a JSON body) is a success: the executor returns the
  body.  And a later repository is not always processed: when the first request fails and
  the second repository answers with an empty list of results, the run ends with the
  \<^verbatim>\<open>KeyError\<close> of that report, and the third repository is never queried.
\<close>

theorem later_repository_not_processed:
  "execute_aql_query (\<lambda>r. Response 300 ''Multiple Choices'' (Inr example_body))
       (generate_aql_query ''libs'') ''https://repo.example'' ''reader'' ''secret'' =
     ([Post (request_for ''https://repo.example'' ''reader'' ''secret'' ''libs'')], example_body) \<and>
   truthy example_body \<and>
   snd (main_loop example_env_empty ''https://repo.example'' ''reader'' ''secret'' 0 False
          [''libs-release'', ''libs-snapshot'', ''libs'']) = Some KeyError \<and>
   network_calls
     (fst (main_loop example_env_empty ''https://repo.example'' ''reader'' ''secret'' 0 False
             [''libs-release'', ''libs-snapshot'', ''libs''])) =
     [Post (request_for ''https://repo.example'' ''reader'' ''secret'' ''libs-release''),
      Post (request_for ''https://repo.example'' ''reader'' ''secret'' ''libs-snapshot'')]"
proof -
  have a: "execute_aql_query (\<lambda>r. Response 300 ''Multiple Choices'' (Inr example_body))
       (generate_aql_query ''libs'') ''https://repo.example'' ''reader'' ''secret'' =
     ([Post (request_for ''https://repo.example'' ''reader'' ''secret'' ''libs'')], example_body)"
    by (simp add: execute_aql_query_def request_for_def Let_def)
  have b: "truthy example_body" by (simp add: example_body_def)
  have e1: "execute_aql_query (net example_env_empty 0) (generate_aql_query ''libs-release'')
        ''https://repo.example'' ''reader'' ''secret'' =
      ([Post (request_for ''https://repo.example'' ''reader'' ''secret'' ''libs-release''),
        Print (''Error executing AQL query: '' @ ''connection refused'')], PNone)"
    by (simp add: execute_aql_query_def request_for_def example_env_empty_def Let_def)
  have e2: "execute_aql_query (net example_env_empty (Suc 0))
        (generate_aql_query ''libs-snapshot'') ''https://repo.example'' ''reader'' ''secret'' =
      ([Post (request_for ''https://repo.example'' ''reader'' ''secret'' ''libs-snapshot'')],
       PDict ((''results'', PList []) # []))"
    by (simp add: execute_aql_query_def request_for_def example_env_empty_def Let_def)
  have t2: "truthy (PDict ((''results'', PList []) # []))" by simp
  have nt: "\<not> truthy PNone" by simp
  note m2 = main_loop_raises [where rest = "[''libs'']", OF e2 t2 report_empty_results]
  note m1 = main_loop_falsy [OF e1 nt m2]
  from a b show ?thesis
    unfolding m1 network_calls_def by simp
qed

text \<open>
  C10.  When the query succeeds and the decoded body is falsy (the empty JSON object, for
  one), the loop takes the branch of a failed query: it prints that the retrieval failed,
  writes nothing for this repository, and goes on with the remaining names.
\<close>

theorem falsy_body_is_skipped:
  assumes "net E k (request_for url user pass name) = Response st msg (Inr body)"
    and "\<not> (400 \<le> st \<and> st < 600)"
    and "\<not> truthy body"
  shows "execute_aql_query (net E k) (generate_aql_query name) url user pass =
           ([Post (request_for url user pass name)], body) \<and>
         main_loop E url user pass k images_exist (name # rest) =
           ([Print (''Processing repository: '' @ name),
             Print (''Generated AQL query: '' @ generate_aql_query name),
             Post (request_for url user pass name),
             Print (''Failed to retrieve data for repository '' @ name @ ''.'')]
            @ fst (main_loop E url user pass (Suc k) images_exist rest),
            snd (main_loop E url user pass (Suc k) images_exist rest))"
proof -
  have ex: "execute_aql_query (net E k) (generate_aql_query name) url user pass =
           ([Post (request_for url user pass name)], body)"
    using assms(1,2) by (auto simp: execute_aql_query_def request_for_def Let_def)
  show ?thesis
    using assms(3) by (simp add: ex Let_def split: prod.splits)
qed

theorem falsy_body_is_skipped_witness:
  "net example_env 1 (request_for ''https://repo.example'' ''reader'' ''secret'' ''libs-release'')
     = Response 200 ''OK'' (Inr (PDict [])) \<and>
   \<not> truthy (PDict []) \<and>
   main_loop example_env ''https://repo.example'' ''reader'' ''secret'' 1 False
       [''libs-release'', ''libs-snapshot''] =
     ([Print ''Processing repository: libs-release'',
       Print (''Generated AQL query: '' @ generate_aql_query ''libs-release''),
       Post (request_for ''https://repo.example'' ''reader'' ''secret'' ''libs-release''),
       Print ''Failed to retrieve data for repository libs-release.'']
      @ fst (main_loop example_env ''https://repo.example'' ''reader'' ''secret'' (Suc 1) False
               [''libs-snapshot'']),
      snd (main_loop example_env ''https://repo.example'' ''reader'' ''secret'' (Suc 1) False
             [''libs-snapshot'']))"
proof -
  have n: "net example_env 1
      (request_for ''https://repo.example'' ''reader'' ''secret'' ''libs-release'')
     = Response 200 ''OK'' (Inr (PDict []))"
    by (simp add: example_env_def)
  have s: "\<not> (400 \<le> (200::nat) \<and> (200::nat) < 600)" by simp
  have t: "\<not> truthy (PDict [])" by simp
  from falsy_body_is_skipped [OF n s t, of False "[''libs-snapshot'']"] n t
  show ?thesis by simp
qed

section \<open>Properties of the report writer\<close>

lemma download_range_eq:
  "download_range x =
     (if x \<le> 0 then None
      else if x \<le> 10 then Some ''1-10''
      else if x \<le> 20 then Some ''11-20''
      else if x \<le> 30 then Some ''21-30''
      else if x \<le> 40 then Some ''31-40''
      else if x \<le> 50 then Some ''41-50''
      else Some ''50+'')"
  by (simp add: download_range_def download_bins_def download_labels_def)

lemma download_range_iff:
  "download_range x = Some ''1-10'' \<longleftrightarrow> 0 < x \<and> x \<le> 10"
  "download_range x = Some ''11-20'' \<longleftrightarrow> 10 < x \<and> x \<le> 20"
  "download_range x = Some ''21-30'' \<longleftrightarrow> 20 < x \<and> x \<le> 30"
  "download_range x = Some ''31-40'' \<longleftrightarrow> 30 < x \<and> x \<le> 40"
  "download_range x = Some ''41-50'' \<longleftrightarrow> 40 < x \<and> x \<le> 50"
  "download_range x = Some ''50+'' \<longleftrightarrow> 50 < x"
  "download_range x = None \<longleftrightarrow> x \<le> 0"
  by (auto simp: download_range_eq)

lemma count_zip_map:
  "length (filter (\<lambda>(r, d). P r d) (zip (map f ds) (map g ds)))
     = length (filter (\<lambda>d. P (f d) (g d)) ds)"
  by (induction ds) auto

lemma int_column_numeric: "numeric_column (map PInt ds)"
  by (cases ds) (auto simp: numeric_column_def list_all_iff)

lemma download_ranges_int:
  "download_ranges (Object (map PInt ds)) = Inr (map (\<lambda>d. download_range (of_int d)) ds)"
  by (simp add: download_ranges_def int_column_numeric Let_def comp_def)

lemma download_summary_int:
  "download_summary (map (\<lambda>d. download_range (of_int d)) ds) (map PInt ds) =
     [(''1-10'', length (filter (\<lambda>d. 0 < d \<and> d \<le> 10) ds)),
      (''11-20'', length (filter (\<lambda>d. 10 < d \<and> d \<le> 20) ds)),
      (''21-30'', length (filter (\<lambda>d. 20 < d \<and> d \<le> 30) ds)),
      (''31-40'', length (filter (\<lambda>d. 30 < d \<and> d \<le> 40) ds)),
      (''41-50'', length (filter (\<lambda>d. 40 < d \<and> d \<le> 50) ds)),
      (''50+'', length (filter (\<lambda>d. 50 < d) ds))]"
  by (simp add: download_summary_def download_labels_def count_zip_map download_range_iff)

text \<open>
  C4.  The download ranges are the intervals \<open>(0, 10]\<close>, \<open>(10, 20]\<close>, ..., \<open>(40, 50]\<close>
  and \<open>(50, \<infinity>)\<close>, open on the left and closed on the right: 10 downloads fall in
  \<^verbatim>\<open>1-10\<close>, 11 in \<^verbatim>\<open>11-20\<close>, and 0 (like every value that is not positive) in no range.
  For a column of ints, the table of the ranges counts for each label the rows whose
  downloads lie in its interval, so a row with 0 downloads is counted under no label.
\<close>

theorem download_range_binning:
  "download_range 10 = Some ''1-10'' \<and> download_range 11 = Some ''11-20'' \<and>
   download_range 0 = None \<and>
   (\<forall>x. (download_range x = Some ''1-10'') = (0 < x \<and> x \<le> 10)) \<and>
   (\<forall>x. (download_range x = Some ''11-20'') = (10 < x \<and> x \<le> 20)) \<and>
   (\<forall>x. (download_range x = Some ''21-30'') = (20 < x \<and> x \<le> 30)) \<and>
   (\<forall>x. (download_range x = Some ''31-40'') = (30 < x \<and> x \<le> 40)) \<and>
   (\<forall>x. (download_range x = Some ''41-50'') = (40 < x \<and> x \<le> 50)) \<and>
   (\<forall>x. (download_range x = Some ''50+'') = (50 < x)) \<and>
   (\<forall>x. (download_range x = None) = (x \<le> 0)) \<and>
   (\<forall>ds. download_ranges (Object (map PInt ds))
            = Inr (map (\<lambda>d. download_range (of_int d)) ds)) \<and>
   (\<forall>ds. download_summary (map (\<lambda>d. download_range (of_int d)) ds) (map PInt ds) =
     [(''1-10'', length (filter (\<lambda>d. 0 < d \<and> d \<le> 10) ds)),
      (''11-20'', length (filter (\<lambda>d. 10 < d \<and> d \<le> 20) ds)),
      (''21-30'', length (filter (\<lambda>d. 20 < d \<and> d \<le> 30) ds)),
      (''31-40'', length (filter (\<lambda>d. 30 < d \<and> d \<le> 40) ds)),
      (''41-50'', length (filter (\<lambda>d. 40 < d \<and> d \<le> 50) ds)),
      (''50+'', length (filter (\<lambda>d. 50 < d) ds))])"
proof -
  have "download_range 10 = Some ''1-10''" "download_range 11 = Some ''11-20''"
       "download_range 0 = None"
    by (simp_all add: download_range_eq)
  then show ?thesis
    using download_range_iff download_ranges_int download_summary_int by blast
qed

theorem download_range_binning_witness:
  "download_ranges (Object (map PInt [0, 10, 11, 0, 75]))
     = Inr [None, Some ''1-10'', Some ''11-20'', None, Some ''50+''] \<and>
   download_summary [None, Some ''1-10'', Some ''11-20'', None, Some ''50+'']
       (map PInt [0, 10, 11, 0, 75])
     = [(''1-10'', 1), (''11-20'', 1), (''21-30'', 0), (''31-40'', 0), (''41-50'', 0), (''50+'', 1)]"
proof -
  have r: "map (\<lambda>d. download_range (of_int d)) [0, 10, 11, 0, 75]
             = [None, Some ''1-10'', Some ''11-20'', None, Some ''50+'']"
    by (simp add: download_range_eq)
  have a: "download_ranges (Object (map PInt [0, 10, 11, 0, 75]))
            = Inr (map (\<lambda>d. download_range (of_int d)) [0, 10, 11, 0, 75])"
    using download_range_binning by blast
  have b: "download_summary (map (\<lambda>d. download_range (of_int d)) [0, 10, 11, 0, 75])
             (map PInt [0, 10, 11, 0, 75]) =
     [(''1-10'', length (filter (\<lambda>d. 0 < d \<and> d \<le> 10) [0, 10, 11, 0, 75::int])),
      (''11-20'', length (filter (\<lambda>d. 10 < d \<and> d \<le> 20) [0, 10, 11, 0, 75::int])),
      (''21-30'', length (filter (\<lambda>d. 20 < d \<and> d \<le> 30) [0, 10, 11, 0, 75::int])),
      (''31-40'', length (filter (\<lambda>d. 30 < d \<and> d \<le> 40) [0, 10, 11, 0, 75::int])),
      (''41-50'', length (filter (\<lambda>d. 40 < d \<and> d \<le> 50) [0, 10, 11, 0, 75::int])),
      (''50+'', length (filter (\<lambda>d. 50 < d) [0, 10, 11, 0, 75::int]))]"
    using download_range_binning by blast
  show ?thesis
    using a b unfolding r by simp
qed

subsection \<open>The file name\<close>

lemma digit_char_inj: "a < 10 \<Longrightarrow> b < 10 \<Longrightarrow> digit_char a = digit_char b \<Longrightarrow> a = b"
proof -
  assume a: "a < 10" and b: "b < 10" and e: "digit_char a = digit_char b"
  have d: "distinct ''0123456789''" by simp
  have "''0123456789'' ! a = ''0123456789'' ! b"
    using e a b by (simp add: digit_char_def)
  moreover have "a < length ''0123456789''" "b < length ''0123456789''"
    using a b by simp_all
  ultimately show "a = b"
    using d nth_eq_iff_index_eq by blast
qed

lemma digits_1: "n < 10 \<Longrightarrow> digits n = [digit_char n]"
  by (subst digits.simps) simp

lemma digits_2: "10 \<le> n \<Longrightarrow> n < 100 \<Longrightarrow> digits n = [digit_char (n div 10), digit_char (n mod 10)]"
  by (subst digits.simps) (simp add: digits_1)

lemma digits_3: "100 \<le> n \<Longrightarrow> n < 1000 \<Longrightarrow>
  digits n = [digit_char (n div 100), digit_char (n div 10 mod 10), digit_char (n mod 10)]"
  by (subst digits.simps) (simp add: digits_2 div_mult2_eq [symmetric])

lemma digits_4: "1000 \<le> n \<Longrightarrow> n < 10000 \<Longrightarrow>
  digits n = [digit_char (n div 1000), digit_char (n div 100 mod 10),
              digit_char (n div 10 mod 10), digit_char (n mod 10)]"
  by (subst digits.simps) (simp add: digits_3 div_mult2_eq [symmetric])

lemma digit_char_0: "digit_char 0 = CHR ''0''"
  by (simp add: digit_char_def)

lemma zpad2: "n < 100 \<Longrightarrow> zpad 2 n = [digit_char (n div 10), digit_char (n mod 10)]"
proof -
  assume n: "n < 100"
  consider (a) "n < 10" | (b) "10 \<le> n" by linarith
  then show ?thesis
  proof cases
    case a then show ?thesis by (simp add: zpad_def digits_1 digit_char_0)
  next
    case b then show ?thesis using n by (simp add: zpad_def digits_2)
  qed
qed

lemma replicate_small:
  "replicate 3 x = [x, x, x]" "replicate 2 x = [x, x]" "replicate 1 x = [x]"
  by (simp_all add: numeral_3_eq_3 numeral_2_eq_2)

lemma zpad4: "n < 10000 \<Longrightarrow>
  zpad 4 n = [digit_char (n div 1000), digit_char (n div 100 mod 10),
              digit_char (n div 10 mod 10), digit_char (n mod 10)]"
proof -
  assume n: "n < 10000"
  consider (a) "n < 10" | (b) "10 \<le> n" "n < 100" | (c) "100 \<le> n" "n < 1000" | (d) "1000 \<le> n"
    by linarith
  then show ?thesis
  proof cases
    case a
    have "zpad 4 n = replicate 3 (CHR ''0'') @ [digit_char n]"
      using a by (simp add: zpad_def digits_1)
    then show ?thesis using a by (simp add: replicate_small digit_char_0)
  next
    case b
    have "zpad 4 n = replicate 2 (CHR ''0'') @ [digit_char (n div 10), digit_char (n mod 10)]"
      using b by (simp add: zpad_def digits_2)
    then show ?thesis using b by (simp add: replicate_small digit_char_0)
  next
    case c
    have "zpad 4 n = replicate 1 (CHR ''0'') @
            [digit_char (n div 100), digit_char (n div 10 mod 10), digit_char (n mod 10)]"
      using c by (simp add: zpad_def digits_3)
    then show ?thesis using c by (simp add: digit_char_0)
  next
    case d then show ?thesis using n by (simp add: zpad_def digits_4)
  qed
qed

lemma zpad2_inj: "a < 100 \<Longrightarrow> b < 100 \<Longrightarrow> zpad 2 a = zpad 2 b \<Longrightarrow> a = b"
proof -
  assume a: "a < 100" and b: "b < 100" and e: "zpad 2 a = zpad 2 b"
  from e have "digit_char (a div 10) = digit_char (b div 10)"
      and "digit_char (a mod 10) = digit_char (b mod 10)"
    by (simp_all add: zpad2 a b)
  then have "a div 10 = b div 10" "a mod 10 = b mod 10"
    using a b by (auto intro!: digit_char_inj)
  then show ?thesis by (metis div_mult_mod_eq)
qed

lemma div_mod_10_eq:
  fixes a b :: nat
  assumes "a div 10 = b div 10" and "a mod 10 = b mod 10"
  shows "a = b"
  using assms by (metis div_mult_mod_eq)

lemma zpad4_inj: "a < 10000 \<Longrightarrow> b < 10000 \<Longrightarrow> zpad 4 a = zpad 4 b \<Longrightarrow> a = b"
proof -
  assume a: "a < 10000" and b: "b < 10000" and e: "zpad 4 a = zpad 4 b"
  from e have "digit_char (a div 1000) = digit_char (b div 1000)"
      and "digit_char (a div 100 mod 10) = digit_char (b div 100 mod 10)"
      and "digit_char (a div 10 mod 10) = digit_char (b div 10 mod 10)"
      and "digit_char (a mod 10) = digit_char (b mod 10)"
    by (simp_all add: zpad4 a b)
  moreover have "a div 1000 < 10" "b div 1000 < 10" using a b by simp_all
  ultimately have d3: "a div 1000 = b div 1000"
    and d2: "a div 100 mod 10 = b div 100 mod 10"
    and d1: "a div 10 mod 10 = b div 10 mod 10"
    and d0: "a mod 10 = b mod 10"
    by (auto intro!: digit_char_inj)
  have "a div 100 div 10 = b div 100 div 10"
    using d3 by (simp add: div_mult2_eq [symmetric])
  then have h: "a div 100 = b div 100" using d2 by (rule div_mod_10_eq)
  have "a div 10 div 10 = b div 10 div 10"
    using h by (simp add: div_mult2_eq [symmetric])
  then have "a div 10 = b div 10" using d1 by (rule div_mod_10_eq)
  then show "a = b" using d0 by (rule div_mod_10_eq)
qed

lemma month_abbr_length: "length (month_abbr m) = 3"
proof -
  let ?L = "[''Jan'', ''Feb'', ''Mar'', ''Apr'', ''May'', ''Jun'',
             ''Jul'', ''Aug'', ''Sep'', ''Oct'', ''Nov'', ''Dec'']"
  have "(m - 1) mod 12 < length ?L" by simp
  then have "?L ! ((m - 1) mod 12) \<in> set ?L" by (rule nth_mem)
  moreover have "\<forall>s\<in>set ?L. length s = 3" by simp
  ultimately show ?thesis unfolding month_abbr_def by blast
qed

lemma month_abbr_inj:
  assumes "1 \<le> a" "a \<le> 12" "1 \<le> b" "b \<le> 12" "month_abbr a = month_abbr b"
  shows "a = b"
proof -
  let ?L = "[''Jan'', ''Feb'', ''Mar'', ''Apr'', ''May'', ''Jun'',
             ''Jul'', ''Aug'', ''Sep'', ''Oct'', ''Nov'', ''Dec'']"
  have d: "distinct ?L" by simp
  have a: "(a - 1) mod 12 = a - 1" and b: "(b - 1) mod 12 = b - 1"
    using assms(1-4) by simp_all
  have "?L ! (a - 1) = ?L ! (b - 1)"
    using assms(5) unfolding month_abbr_def a b .
  moreover have "a - 1 < length ?L" "b - 1 < length ?L"
    using assms(1-4) by simp_all
  ultimately have "a - 1 = b - 1"
    using d nth_eq_iff_index_eq by blast
  then show ?thesis using assms(1,3) by simp
qed


lemma zpad4_length: "n < 10000 \<Longrightarrow> length (zpad 4 n) = 4"
  by (simp add: zpad4)

lemma zpad2_length: "n < 100 \<Longrightarrow> length (zpad 2 n) = 2"
  by (simp add: zpad2)

lemma strftime_stamp_length:
  "valid_timestamp t \<Longrightarrow> length (strftime_stamp t) = 16"
  by (simp add: strftime_stamp_def valid_timestamp_def zpad4_length zpad2_length
      month_abbr_length)

lemma strftime_stamp_inj:
  assumes v1: "valid_timestamp t1" and v2: "valid_timestamp t2"
    and e: "strftime_stamp t1 = strftime_stamp t2"
  shows "same_minute t1 t2"
proof -
  have y: "year t1 < 10000" "year t2 < 10000"
    and d: "day t1 < 100" "day t2 < 100"
    and h: "hour t1 < 100" "hour t2 < 100"
    and m: "minute t1 < 100" "minute t2 < 100"
    and mo: "1 \<le> month t1" "month t1 \<le> 12" "1 \<le> month t2" "month t2 \<le> 12"
    using v1 v2 by (simp_all add: valid_timestamp_def)
  have 1: "zpad 4 (year t1) = zpad 4 (year t2) \<and>
        month_abbr (month t1) @ zpad 2 (day t1) @ ''T'' @ zpad 2 (hour t1) @
          zpad 2 (minute t1) @ ''HZ'' =
        month_abbr (month t2) @ zpad 2 (day t2) @ ''T'' @ zpad 2 (hour t2) @
          zpad 2 (minute t2) @ ''HZ''"
    using e unfolding strftime_stamp_def
    by (subst (asm) append_eq_append_conv) (simp_all add: zpad4_length y)
  then have 2: "month_abbr (month t1) = month_abbr (month t2) \<and>
        zpad 2 (day t1) @ ''T'' @ zpad 2 (hour t1) @ zpad 2 (minute t1) @ ''HZ'' =
        zpad 2 (day t2) @ ''T'' @ zpad 2 (hour t2) @ zpad 2 (minute t2) @ ''HZ''"
    by (subst (asm) append_eq_append_conv) (simp_all add: month_abbr_length)
  then have 3: "zpad 2 (day t1) = zpad 2 (day t2) \<and>
        ''T'' @ zpad 2 (hour t1) @ zpad 2 (minute t1) @ ''HZ'' =
        ''T'' @ zpad 2 (hour t2) @ zpad 2 (minute t2) @ ''HZ''"
    by (subst (asm) append_eq_append_conv) (simp_all add: zpad2_length d)
  then have 4: "zpad 2 (hour t1) = zpad 2 (hour t2) \<and>
        zpad 2 (minute t1) @ ''HZ'' = zpad 2 (minute t2) @ ''HZ''"
    by (subst (asm) append_eq_append_conv) (simp_all add: zpad2_length h)
  then have 5: "zpad 2 (minute t1) = zpad 2 (minute t2)"
    by simp
  have "year t1 = year t2" using 1 y by (blast intro: zpad4_inj)
  moreover have "month t1 = month t2" using 2 mo by (blast intro: month_abbr_inj)
  moreover have "day t1 = day t2" using 3 d by (blast intro: zpad2_inj)
  moreover have "hour t1 = hour t2" using 4 h by (blast intro: zpad2_inj)
  moreover have "minute t1 = minute t2" using 5 m by (blast intro: zpad2_inj)
  ultimately show ?thesis by (simp add: same_minute_def)
qed

lemma same_minute_stamp:
  "same_minute t1 t2 \<Longrightarrow> strftime_stamp t1 = strftime_stamp t2"
  by (simp add: same_minute_def strftime_stamp_def)

lemma filename_inj:
  assumes v1: "valid_timestamp t1" and v2: "valid_timestamp t2"
    and e: "filename r1 t1 = filename r2 t2"
  shows "r1 = r2 \<and> same_minute t1 t2"
proof -
  have l: "length (''-'' @ strftime_stamp t1 @ ''-stats.xlsx'')
         = length (''-'' @ strftime_stamp t2 @ ''-stats.xlsx'')"
    by (simp add: strftime_stamp_length v1 v2)
  have "r1 @ (''-'' @ strftime_stamp t1 @ ''-stats.xlsx'')
      = r2 @ (''-'' @ strftime_stamp t2 @ ''-stats.xlsx'')"
    using e by (simp add: filename_def)
  then have "r1 = r2 \<and> ''-'' @ strftime_stamp t1 @ ''-stats.xlsx''
                      = ''-'' @ strftime_stamp t2 @ ''-stats.xlsx''"
    using l by (subst (asm) append_eq_append_conv) blast+
  then have "r1 = r2" and "strftime_stamp t1 = strftime_stamp t2" by simp_all
  then show ?thesis using strftime_stamp_inj [OF v1 v2] by blast
qed

text \<open>
  C8, as the code has it.  The file name is the repository name, a hyphen, the time of
  writing as four digits of the year, the abbreviated month, two digits each of day, hour
  and minute (with \<^verbatim>\<open>T\<close> before the hour and \<^verbatim>\<open>HZ\<close> after the minute), and
  \<^verbatim>\<open>-stats.xlsx\<close>.  Two reports get the same file name exactly when they are for the same
  repository name and are written in the same minute.
\<close>

theorem filename_pattern:
  assumes "valid_timestamp t1" and "valid_timestamp t2"
  shows "filename r1 t1 =
           r1 @ ''-'' @ zpad 4 (year t1) @ month_abbr (month t1) @ zpad 2 (day t1) @ ''T'' @
           zpad 2 (hour t1) @ zpad 2 (minute t1) @ ''HZ'' @ ''-stats.xlsx'' \<and>
         (filename r1 t1 = filename r2 t2) = (r1 = r2 \<and> same_minute t1 t2)"
proof -
  have "filename r1 t1 = filename r2 t2" if "r1 = r2 \<and> same_minute t1 t2"
    using that same_minute_stamp [of t1 t2] by (simp add: filename_def)
  then have "(filename r1 t1 = filename r2 t2) = (r1 = r2 \<and> same_minute t1 t2)"
    using filename_inj [OF assms] by blast
  then show ?thesis by (simp add: filename_def strftime_stamp_def)
qed

theorem filename_pattern_witness:
  "valid_timestamp run_at_140710 \<and> valid_timestamp run_at_140810 \<and>
   filename ''libs-release'' run_at_140710 = ''libs-release-2024Mar05T1407HZ-stats.xlsx'' \<and>
   filename ''libs-release'' run_at_140710 \<noteq> filename ''libs-release'' run_at_140810"
proof -
  have v: "valid_timestamp run_at_140710" "valid_timestamp run_at_140810"
    by (simp_all add: valid_timestamp_def run_at_140710_def run_at_140810_def)
  have n: "\<not> same_minute run_at_140710 run_at_140810"
    by (simp add: same_minute_def run_at_140710_def run_at_140810_def)
  have z: "zpad 4 2024 = ''2024''" "zpad 2 5 = ''05''" "zpad 2 14 = ''14''" "zpad 2 7 = ''07''"
    by (simp_all add: zpad4 zpad2 digit_char_def)
  have m: "month_abbr 3 = ''Mar''" by (simp add: month_abbr_def)
  note p = filename_pattern [OF v, of "''libs-release''" "''libs-release''"]
  have a: "filename ''libs-release'' run_at_140710 = ''libs-release-2024Mar05T1407HZ-stats.xlsx''"
    using p by (simp add: run_at_140710_def z m)
  have b: "filename ''libs-release'' run_at_140710 \<noteq> filename ''libs-release'' run_at_140810"
    using p n by blast
  show ?thesis using v a b by blast
qed

text \<open>
  C8, as the specification states it, fails: the name does not keep two runs apart.  Two
  reports for the same repository written ten seconds apart, in the same minute, get the
  same file name.
\<close>

theorem filename_collision:
  "run_at_140710 \<noteq> run_at_140720 \<and>
   filename ''libs-release'' run_at_140710 = filename ''libs-release'' run_at_140720"
  by (simp add: run_at_140710_def run_at_140720_def filename_def strftime_stamp_def)

subsection \<open>Size conversion\<close>

lemma round_half_even_int: "round_half_even (of_int z) = z"
  by (simp add: round_half_even_def)

lemma ilog2_le:
  assumes "a < 2 ^ 23"
  shows "ilog2 a \<le> 22"
proof -
  consider (big) "1 \<le> a" | (small) "a < 1" by linarith
  then show ?thesis
  proof cases
    case big
    have "\<lfloor>a\<rfloor> < 2 ^ 23" using assms by (simp add: floor_less_iff)
    then have "bitlen \<lfloor>a\<rfloor> \<le> 23"
      by (simp add: bitlen_le_iff_power)
    then show ?thesis using big by (simp add: ilog2_def)
  next
    case small
    then show ?thesis using bitlen_nonneg [of "\<lceil>1 / a\<rceil> - 1"] by (simp add: ilog2_def)
  qed
qed

lemma to_double_exact:
  assumes "\<bar>n\<bar> < 2 ^ 53"
  shows "to_double (of_int n / 2 ^ 30) = of_int n / 2 ^ 30"
proof -
  consider (zero) "n = 0" | (nz) "n \<noteq> 0" by blast
  then show ?thesis
  proof cases
    case zero
    then show ?thesis by (simp add: to_double_def)
  next
    case nz
    define x :: rat where "x = of_int n / 2 ^ 30"
    have x0: "x \<noteq> 0" using nz by (simp add: x_def)
    have "\<bar>x\<bar> = of_int \<bar>n\<bar> / 2 ^ 30" by (simp add: x_def)
    also have "\<dots> < 2 ^ 53 / 2 ^ 30"
    proof -
      have "(of_int \<bar>n\<bar> :: rat) < of_int (2 ^ 53)" using assms by (simp only: of_int_less_iff)
      then have "(of_int \<bar>n\<bar> :: rat) < 2 ^ 53" by simp
      then show ?thesis by (simp add: divide_strict_right_mono)
    qed
    also have "\<dots> = (2 ^ 23 :: rat)" by simp
    finally have "ilog2 \<bar>x\<bar> \<le> 22" by (rule ilog2_le)
    define e where "e = max (ilog2 \<bar>x\<bar> - 52) (- 1074)"
    define k where "k = nat (- e) - 30"
    have e: "e \<le> - 30" using \<open>ilog2 \<bar>x\<bar> \<le> 22\<close> by (simp add: e_def)
    then have ke: "nat (- e) = k + 30" by (simp add: k_def)
    have p: "pow2 e = 1 / (2 ^ k * 2 ^ 30)"
      using e by (simp add: pow2_def ke power_add)
    have q: "x / pow2 e = of_int (n * 2 ^ k)"
      by (simp add: p x_def)
    have "to_double x = of_int (round_half_even (x / pow2 e)) * pow2 e"
      using x0 by (simp add: to_double_def e_def Let_def)
    also have "\<dots> = of_int (n * 2 ^ k) * pow2 e"
      by (simp only: q round_half_even_int)
    also have "\<dots> = x"
      by (simp add: p x_def)
    finally show ?thesis by (simp add: x_def)
  qed
qed

lemma truediv_exact:
  assumes "\<bar>n\<bar> < 2 ^ 53"
  shows "truediv n (1024 ^ 3) = Inr (of_int n / 2 ^ 30)"
proof -
  have t: "to_double (of_int n / of_int (1024 ^ 3)) = of_int n / 2 ^ 30"
    using to_double_exact [OF assms] by simp
  have "\<bar>of_int n / 2 ^ 30 :: rat\<bar> = of_int \<bar>n\<bar> / 2 ^ 30" by simp
  also have "\<dots> \<le> of_int \<bar>n\<bar>" by (simp add: divide_le_eq)
  also have "\<dots> \<le> of_int (2 ^ 53)" using assms by (simp only: of_int_le_iff)
  also have "\<dots> \<le> max_double" by (simp add: max_double_def)
  finally have "\<not> \<bar>of_int n / 2 ^ 30 :: rat\<bar> > max_double" by simp
  then show ?thesis
    unfolding truediv_def t Let_def by simp
qed


lemma ilog2_one: "ilog2 1 = 0"
  by (simp add: ilog2_def compute_bitlen)

lemma to_double_one: "to_double 1 = 1"
  by (simp add: to_double_def ilog2_one pow2_def round_half_even_def)

lemma bytes_to_gb_exact:
  assumes "\<bar>n\<bar> < 2 ^ 53"
  shows "bytes_to_gb n =
           Inr (to_double (of_int (round_half_even (of_int n / 2 ^ 30 * 100)) / 100))"
  unfolding bytes_to_gb_def truediv_exact [OF assms] sbind_Inr py_round2_def ..

lemma int_column_not_float64: "\<not> float64_column (map PInt ns)"
  by (simp add: float64_column_def list_ex_iff)

lemma traverse_bytes_to_gb:
  assumes "\<forall>n\<in>set ns. \<bar>n\<bar> < 2 ^ 53"
  shows "traverse bytes_to_gb_cell (map PInt ns) =
           Inr (map (\<lambda>n. PFloat (to_double
                  (of_int (round_half_even (of_int n / 2 ^ 30 * 100)) / 100))) ns)"
  using assms by (induction ns) (simp_all add: bytes_to_gb_exact sbind_Inr)

lemma apply_bytes_to_gb_ints:
  assumes "\<forall>n\<in>set ns. \<bar>n\<bar> < 2 ^ 53"
  shows "apply_bytes_to_gb (Object (map PInt ns)) =
           Inr (Object (map (\<lambda>n. PFloat (to_double
                  (of_int (round_half_even (of_int n / 2 ^ 30 * 100)) / 100))) ns))"
  by (simp add: apply_bytes_to_gb_def int_column_not_float64
      traverse_bytes_to_gb [OF assms] sbind_Inr)

lemma round_half_even_near: "\<bar>of_int (round_half_even x) - x\<bar> \<le> 1 / 2"
proof -
  have "of_int \<lfloor>x\<rfloor> \<le> x" "x < of_int \<lfloor>x\<rfloor> + 1" by linarith+
  then show ?thesis
    by (auto simp: round_half_even_def Let_def)
qed

lemma round_half_even_tie:
  assumes "\<bar>of_int (round_half_even x) - x\<bar> = 1 / 2"
  shows "even (round_half_even x)"
proof -
  have f: "of_int \<lfloor>x\<rfloor> \<le> x" "x < of_int \<lfloor>x\<rfloor> + 1" by linarith+
  consider (lo) "x - of_int \<lfloor>x\<rfloor> < 1 / 2" | (hi) "x - of_int \<lfloor>x\<rfloor> > 1 / 2"
    | (tie) "x - of_int \<lfloor>x\<rfloor> = 1 / 2" by linarith
  then show ?thesis
  proof cases
    case lo
    then have "round_half_even x = \<lfloor>x\<rfloor>" by (simp add: round_half_even_def Let_def)
    then show ?thesis using assms lo f by simp
  next
    case hi
    then have "round_half_even x = \<lfloor>x\<rfloor> + 1" by (simp add: round_half_even_def Let_def)
    then show ?thesis using assms hi f by simp
  next
    case tie
    then show ?thesis by (simp add: round_half_even_def Let_def)
  qed
qed

lemma ilog2_less:
  assumes "a < 2 ^ m" and "0 < m"
  shows "ilog2 a < int m"
proof -
  consider (big) "1 \<le> a" | (small) "a < 1" by linarith
  then show ?thesis
  proof cases
    case big
    have "\<lfloor>a\<rfloor> < 2 ^ m" using assms(1) by (simp add: floor_less_iff)
    then have "bitlen \<lfloor>a\<rfloor> \<le> int m"
      by (simp add: bitlen_le_iff_power)
    then show ?thesis using big by (simp add: ilog2_def)
  next
    case small
    have "ilog2 a \<le> 0"
      using small bitlen_nonneg [of "\<lceil>1 / a\<rceil> - 1"] by (simp add: ilog2_def)
    then show ?thesis using assms(2) by simp
  qed
qed

lemma pow2_pos: "0 < pow2 e"
  by (simp add: pow2_def)

lemma pow2_le:
  assumes "e \<le> - 29"
  shows "pow2 e \<le> 1 / 2 ^ 29"
proof -
  have p: "pow2 e = 1 / 2 ^ nat (- e)" using assms by (simp add: pow2_def)
  have "(2::rat) ^ 29 \<le> 2 ^ nat (- e)"
    using assms by (intro power_increasing) simp_all
  then have "1 / (2::rat) ^ nat (- e) \<le> 1 / 2 ^ 29"
    by (intro divide_left_mono) simp_all
  then show ?thesis by (simp only: p)
qed

lemma to_double_near:
  assumes "\<bar>y\<bar> < 2 ^ 24"
  shows "\<bar>to_double y - y\<bar> \<le> 1 / 2 ^ 30"
proof -
  consider (zero) "y = 0" | (nz) "y \<noteq> 0" by blast
  then show ?thesis
  proof cases
    case zero
    then show ?thesis by (simp add: to_double_def)
  next
    case nz
    define e where "e = max (ilog2 \<bar>y\<bar> - 52) (- 1074)"
    define u where "u = pow2 e"
    have "ilog2 \<bar>y\<bar> < 24" using ilog2_less [OF assms] by simp
    then have "e \<le> - 29" by (simp add: e_def)
    then have "pow2 e \<le> 1 / 2 ^ 29" by (rule pow2_le)
    then have u: "0 < u" "u \<le> 1 / 2 ^ 29" unfolding u_def using pow2_pos [of e] by blast+
    have t: "to_double y = of_int (round_half_even (y / u)) * u"
      using nz by (simp add: to_double_def e_def u_def Let_def)
    have "to_double y - y = (of_int (round_half_even (y / u)) - y / u) * u"
      using u(1) by (simp add: t field_simps)
    then have "\<bar>to_double y - y\<bar> = \<bar>of_int (round_half_even (y / u)) - y / u\<bar> * u"
      using u(1) by (simp add: abs_mult)
    also have "\<dots> \<le> (1 / 2) * u"
      using round_half_even_near [of "y / u"] u(1) by (intro mult_right_mono) simp_all
    also have "\<dots> \<le> (1 / 2) * (1 / 2 ^ 29)"
      using u(2) by (intro mult_left_mono) simp_all
    also have "\<dots> = 1 / 2 ^ 30" by simp
    finally show ?thesis .
  qed
qed


lemma bytes_to_gb_accuracy:
  assumes "\<bar>n\<bar> < 2 ^ 53"
  shows "\<exists>k r. bytes_to_gb n = Inr r \<and>
           \<bar>of_int k / 100 - of_int n / 2 ^ 30 :: rat\<bar> \<le> 1 / 200 \<and>
           (\<bar>of_int k / 100 - of_int n / 2 ^ 30 :: rat\<bar> = 1 / 200 \<longrightarrow> even k) \<and>
           \<bar>r - of_int k / 100\<bar> \<le> 1 / 2 ^ 30"
proof -
  define q :: rat where "q = of_int n / 2 ^ 30"
  define k where "k = round_half_even (q * 100)"
  define r where "r = to_double (of_int k / 100)"
  have b: "bytes_to_gb n = Inr r"
    unfolding r_def k_def q_def by (rule bytes_to_gb_exact [OF assms])
  have near: "\<bar>of_int k - q * 100\<bar> \<le> 1 / 2"
    unfolding k_def by (rule round_half_even_near)
  have d: "of_int k / 100 - q = (of_int k - q * 100) / 100" by (simp add: field_simps)
  have c1: "\<bar>of_int k / 100 - q\<bar> \<le> 1 / 200"
    unfolding d using near by (simp add: abs_divide)
  have c2: "even k" if "\<bar>of_int k / 100 - q\<bar> = 1 / 200"
  proof -
    have "\<bar>of_int k - q * 100\<bar> = 1 / 2"
      using that unfolding d by (simp add: abs_divide)
    then show ?thesis unfolding k_def by (rule round_half_even_tie)
  qed
  have "\<bar>q\<bar> = of_int \<bar>n\<bar> / 2 ^ 30" by (simp add: q_def)
  also have "\<dots> < 2 ^ 53 / 2 ^ 30"
  proof -
    have "(of_int \<bar>n\<bar> :: rat) < of_int (2 ^ 53)" using assms by (simp only: of_int_less_iff)
    then have "(of_int \<bar>n\<bar> :: rat) < 2 ^ 53" by simp
    then show ?thesis by (simp add: divide_strict_right_mono)
  qed
  also have "\<dots> = (2 ^ 23 :: rat)" by simp
  finally have qb: "\<bar>q\<bar> < 2 ^ 23" .
  have "\<bar>of_int k / 100 :: rat\<bar> \<le> \<bar>of_int k / 100 - q\<bar> + \<bar>q\<bar>" by linarith
  then have "\<bar>of_int k / 100 :: rat\<bar> < 1 / 200 + 2 ^ 23" using c1 qb by linarith
  also have "\<dots> < (2 ^ 24 :: rat)" by simp
  finally have "\<bar>r - of_int k / 100\<bar> \<le> 1 / 2 ^ 30"
    unfolding r_def by (rule to_double_near)
  then show ?thesis using b c1 c2 unfolding q_def by blast
qed

lemma round_half_even_examples:
  "round_half_even (of_int 138512695 / 2 ^ 30 * 100) = 13"
  "round_half_even (of_int 129922761 / 2 ^ 30 * 100) = 12"
  "round_half_even (of_int 134217728 / 2 ^ 30 * 100) = 12"
  "round_half_even (of_int 402653184 / 2 ^ 30 * 100) = 38"
  by code_simp+

lemma to_double_examples:
  "to_double (of_int 13 / 100) = 1170935903116329 / 9007199254740992"
  "to_double (of_int 12 / 100) = 1080863910568919 / 9007199254740992"
  "to_double (of_int 38 / 100) = 3422735716801577 / 9007199254740992"
  by code_simp+

lemma bytes_to_gb_examples:
  "bytes_to_gb 138512695 = Inr (1170935903116329 / 9007199254740992)"
  "bytes_to_gb 129922761 = Inr (1080863910568919 / 9007199254740992)"
  "bytes_to_gb 134217728 = Inr (1080863910568919 / 9007199254740992)"
  "bytes_to_gb 402653184 = Inr (3422735716801577 / 9007199254740992)"
proof -
  have b: "\<bar>138512695 :: int\<bar> < 2 ^ 53" "\<bar>129922761 :: int\<bar> < 2 ^ 53"
          "\<bar>134217728 :: int\<bar> < 2 ^ 53" "\<bar>402653184 :: int\<bar> < 2 ^ 53"
    by simp_all
  show "bytes_to_gb 138512695 = Inr (1170935903116329 / 9007199254740992)"
    unfolding bytes_to_gb_exact [OF b(1)] round_half_even_examples to_double_examples ..
  show "bytes_to_gb 129922761 = Inr (1080863910568919 / 9007199254740992)"
    unfolding bytes_to_gb_exact [OF b(2)] round_half_even_examples to_double_examples ..
  show "bytes_to_gb 134217728 = Inr (1080863910568919 / 9007199254740992)"
    unfolding bytes_to_gb_exact [OF b(3)] round_half_even_examples to_double_examples ..
  show "bytes_to_gb 402653184 = Inr (3422735716801577 / 9007199254740992)"
    unfolding bytes_to_gb_exact [OF b(4)] round_half_even_examples to_double_examples ..
qed

lemma bytes_to_gb_one: "bytes_to_gb 1073741824 = Inr 1"
proof -
  have "\<bar>1073741824 :: int\<bar> < 2 ^ 53" by simp
  from bytes_to_gb_exact [OF this] show ?thesis
    by (simp add: round_half_even_int [of 100, simplified] to_double_one)
qed

text \<open>
  C6.  A size of \<open>2 ^ 30\<close> bytes is converted to 1.0.  The conversion rounds to the
  nearest hundredth, a tie going to the even digit: 0.129 GB gives the float 0.13,
  0.121 GB the float 0.12, and the ties 0.125 GB and 0.375 GB give 0.12 and 0.38.  For
  every size below \<open>2 ^ 53\<close> bytes the result is a float within \<open>2 ^ -30\<close> of a hundredth
  \<open>k / 100\<close> that lies within \<open>1 / 200\<close> of the exact quotient of the size by \<open>2 ^ 30\<close>,
  with \<open>k\<close> even when the quotient lies halfway between two hundredths; the division is
  exact in floating point, so the result is the exact quotient rounded half to even at
  the second decimal and read as the nearest float; and \<^verbatim>\<open>df['size'].apply(bytes_to_gb)\<close>
  gives that value in every row of a column of such sizes.
\<close>

theorem bytes_to_gb_rounds:
  "bytes_to_gb 1073741824 = Inr 1 \<and>
   bytes_to_gb 138512695 = Inr (1170935903116329 / 9007199254740992) \<and>
   bytes_to_gb 129922761 = Inr (1080863910568919 / 9007199254740992) \<and>
   bytes_to_gb 134217728 = Inr (1080863910568919 / 9007199254740992) \<and>
   bytes_to_gb 402653184 = Inr (3422735716801577 / 9007199254740992) \<and>
   (\<forall>n. \<bar>n\<bar> < 2 ^ 53 \<longrightarrow>
      (\<exists>k r. bytes_to_gb n = Inr r \<and>
         \<bar>of_int k / 100 - of_int n / 2 ^ 30 :: rat\<bar> \<le> 1 / 200 \<and>
         (\<bar>of_int k / 100 - of_int n / 2 ^ 30 :: rat\<bar> = 1 / 200 \<longrightarrow> even k) \<and>
         \<bar>r - of_int k / 100\<bar> \<le> 1 / 2 ^ 30)) \<and>
   (\<forall>n. \<bar>n\<bar> < 2 ^ 53 \<longrightarrow>
      bytes_to_gb n = Inr (to_double (of_int (round_half_even (of_int n / 2 ^ 30 * 100)) / 100))) \<and>
   (\<forall>ns. (\<forall>n\<in>set ns. \<bar>n\<bar> < 2 ^ 53) \<longrightarrow>
      apply_bytes_to_gb (Object (map PInt ns)) =
        Inr (Object (map (\<lambda>n. PFloat (to_double
               (of_int (round_half_even (of_int n / 2 ^ 30 * 100)) / 100))) ns)))"
  using bytes_to_gb_one bytes_to_gb_examples bytes_to_gb_accuracy bytes_to_gb_exact
    apply_bytes_to_gb_ints
  by blast

theorem bytes_to_gb_rounds_witness:
  "\<bar>138512695 :: int\<bar> < 2 ^ 53 \<and>
   bytes_to_gb 138512695 = Inr (1170935903116329 / 9007199254740992) \<and>
   \<bar>1170935903116329 / 9007199254740992 - of_int 138512695 / 2 ^ 30 :: rat\<bar>
     \<le> 1 / 200 + 1 / 2 ^ 30 \<and>
   bytes_to_gb 1073741824 = Inr 1 \<and>
   apply_bytes_to_gb (Object [PInt 1073741824]) = Inr (Object [PFloat 1])"
proof -
  have b: "\<bar>138512695 :: int\<bar> < 2 ^ 53" by simp
  note T = bytes_to_gb_rounds
  have v: "bytes_to_gb 138512695 = Inr (1170935903116329 / 9007199254740992)"
    using T by blast
  obtain k r where r: "bytes_to_gb 138512695 = Inr r"
    and k: "\<bar>of_int k / 100 - of_int 138512695 / 2 ^ 30 :: rat\<bar> \<le> 1 / 200"
    and d: "\<bar>r - of_int k / 100\<bar> \<le> 1 / 2 ^ 30"
    using T b by blast
  have "r = 1170935903116329 / 9007199254740992" using r v by simp
  then have acc: "\<bar>1170935903116329 / 9007199254740992 - of_int 138512695 / 2 ^ 30 :: rat\<bar>
     \<le> 1 / 200 + 1 / 2 ^ 30"
    using k d by linarith
  have one: "bytes_to_gb 1073741824 = Inr 1" using T by blast
  have r1: "round_half_even (of_int 1073741824 / 2 ^ 30 * 100) = 100"
    by code_simp
  have c: "\<forall>n\<in>set [1073741824 :: int]. \<bar>n\<bar> < 2 ^ 53" by simp
  have "apply_bytes_to_gb (Object (map PInt [1073741824])) =
        Inr (Object (map (\<lambda>n. PFloat (to_double
               (of_int (round_half_even (of_int n / 2 ^ 30 * 100)) / 100))) [1073741824]))"
    using T c by blast
  then have a: "apply_bytes_to_gb (Object [PInt 1073741824]) = Inr (Object [PFloat 1])"
    by (simp only: list.map r1) (simp add: to_double_one)
  show ?thesis using b v acc one a by blast
qed

end
